theory Spec2Isabelle
  imports Complex_Main "HOL-Library.Word"
begin

section \<open>S-HTCP congestion control (tcp-shtcp.cc)\<close>

text \<open>
  A shallow embedding of the class \<open>TcpShtcp\<close> of \<^verbatim>\<open>tcp-shtcp.cc\<close>.

  \<^item> \<open>uint32_t\<close> is \<open>32 word\<close>: \<open>+\<close>, \<open>-\<close> and \<open>*\<close> wrap modulo \<open>2 ^ 32\<close>, \<open>div\<close> is the
    unsigned division, \<open>unat\<close> reads the value.
  \<^item> \<open>double\<close> is IEEE 754 binary64: a finite value, an infinity or NaN. Every
    arithmetic operation is the exact operation on the reals followed by rounding to the
    nearest value with 53 significant bits, ties to the even one, with gradual underflow
    and overflow to an infinity; each operation is rounded on its own. The sign of zero
    is not represented: the source can observe it only in a division by zero, which is
    a branch of its own.
  \<^item> The two operations of the source that the C++ standard leaves undefined are
    branches of the model: a division whose divisor is zero, and a conversion from
    \<open>double\<close> to \<open>uint32_t\<close> whose truncated value is not in \<open>0 .. 2 ^ 32 - 1\<close>.
  \<^item> \<open>pow\<close> of the C library is taken as the real power, rounded as every operation is.
  \<^item> \<open>ns3::Time\<close> is the integer number of nanoseconds (the default resolution of ns-3);
    \<open>Time::Max ()\<close> and \<open>Time::Min ()\<close> are the ends of the 64-bit range that ns-3 stores.
    Differences of times are taken on the integers, not reduced to 64 bits.
    \<open>GetSeconds\<close> and \<open>GetDouble\<close> are taken as the nearest \<open>double\<close> of the number of
    seconds and of nanoseconds, which is finite for every time of 64 bits.
  \<^item> \<open>Simulator::Now ()\<close> is a parameter \<open>now\<close> of every operation that reads the clock.
  \<^item> A member function that writes members of the object takes the object and returns
    the new one.
\<close>

subsection \<open>Integers and times\<close>

type_synonym uint32 = "32 word"

type_synonym Time = int

definition Time_Max :: Time where
  "Time_Max = 2 ^ 63 - 1"

definition Time_Min :: Time where
  "Time_Min = - (2 ^ 63)"

subsection \<open>The type double\<close>

datatype double = Finite real | PlusInf | MinusInf | NaN

text \<open>Rounding of a real to the nearest integer, ties to the even one.\<close>

definition rne :: "real \<Rightarrow> int" where
  "rne y = (let f = \<lfloor>y\<rfloor>; d = y - of_int f
            in if d < 1/2 then f else if 1/2 < d then f + 1
               else if even f then f else f + 1)"

text \<open>
  The exponent \<open>k\<close> with \<open>2 ^ k \<le> \<bar>x\<bar> < 2 ^ (k + 1)\<close>, and the exponent of the unit in the
  last place of a binary64 value of that size: 52 below, but not below \<open>- 1074\<close>, the
  exponent of the smallest subnormal value.
\<close>

definition binade_exp :: "real \<Rightarrow> int" where
  "binade_exp x = \<lfloor>log 2 \<bar>x\<bar>\<rfloor>"

definition ulp_exp :: "real \<Rightarrow> int" where
  "ulp_exp x = max (binade_exp x - 52) (- 1074)"

text \<open>Rounding to 53 significant bits, the exponent unbounded above.\<close>

definition round53 :: "real \<Rightarrow> real" where
  "round53 x = (if x = 0 then 0
                else of_int (rne (x / 2 powi ulp_exp x)) * 2 powi ulp_exp x)"

text \<open>A rounded value of \<open>2 ^ 1024\<close> or more overflows.\<close>

definition huge :: real where
  "huge = 2 powi 1024"

definition rnd :: "real \<Rightarrow> double" where
  "rnd x = (let v = round53 x
            in if huge \<le> v then PlusInf
               else if v \<le> - huge then MinusInf else Finite v)"

subsection \<open>Arithmetic on double\<close>

fun d_neg :: "double \<Rightarrow> double" where
  "d_neg (Finite x) = Finite (- x)"
| "d_neg PlusInf = MinusInf"
| "d_neg MinusInf = PlusInf"
| "d_neg NaN = NaN"

fun d_add :: "double \<Rightarrow> double \<Rightarrow> double" where
  "d_add (Finite x) (Finite y) = rnd (x + y)"
| "d_add NaN b = NaN"
| "d_add a NaN = NaN"
| "d_add PlusInf MinusInf = NaN"
| "d_add MinusInf PlusInf = NaN"
| "d_add PlusInf b = PlusInf"
| "d_add a PlusInf = PlusInf"
| "d_add MinusInf b = MinusInf"
| "d_add a MinusInf = MinusInf"

definition d_sub :: "double \<Rightarrow> double \<Rightarrow> double" where
  "d_sub a b = d_add a (d_neg b)"

text \<open>The infinity with the sign of a nonzero real, NaN for zero.\<close>

definition inf_of :: "real \<Rightarrow> double" where
  "inf_of x = (if x = 0 then NaN else if 0 < x then PlusInf else MinusInf)"

fun d_mul :: "double \<Rightarrow> double \<Rightarrow> double" where
  "d_mul (Finite x) (Finite y) = rnd (x * y)"
| "d_mul NaN b = NaN"
| "d_mul a NaN = NaN"
| "d_mul (Finite x) PlusInf = inf_of x"
| "d_mul (Finite x) MinusInf = inf_of (- x)"
| "d_mul PlusInf (Finite y) = inf_of y"
| "d_mul MinusInf (Finite y) = inf_of (- y)"
| "d_mul PlusInf PlusInf = PlusInf"
| "d_mul PlusInf MinusInf = MinusInf"
| "d_mul MinusInf PlusInf = MinusInf"
| "d_mul MinusInf MinusInf = PlusInf"

text \<open>The quotient by a divisor that is not zero.\<close>

fun d_quot :: "double \<Rightarrow> double \<Rightarrow> double" where
  "d_quot (Finite x) (Finite y) = rnd (x / y)"
| "d_quot NaN b = NaN"
| "d_quot a NaN = NaN"
| "d_quot (Finite x) PlusInf = Finite 0"
| "d_quot (Finite x) MinusInf = Finite 0"
| "d_quot PlusInf (Finite y) = (if 0 \<le> y then PlusInf else MinusInf)"
| "d_quot MinusInf (Finite y) = (if 0 \<le> y then MinusInf else PlusInf)"
| "d_quot PlusInf b = NaN"
| "d_quot MinusInf b = NaN"

text \<open>The comparisons \<open><\<close> and \<open><=\<close>: false when an operand is NaN.\<close>

fun d_lt :: "double \<Rightarrow> double \<Rightarrow> bool" where
  "d_lt (Finite x) (Finite y) = (x < y)"
| "d_lt NaN b = False"
| "d_lt a NaN = False"
| "d_lt a MinusInf = False"
| "d_lt PlusInf b = False"
| "d_lt MinusInf b = True"
| "d_lt a PlusInf = True"

fun d_le :: "double \<Rightarrow> double \<Rightarrow> bool" where
  "d_le (Finite x) (Finite y) = (x \<le> y)"
| "d_le NaN b = False"
| "d_le a NaN = False"
| "d_le MinusInf b = True"
| "d_le a PlusInf = True"
| "d_le a MinusInf = False"
| "d_le PlusInf b = False"

text \<open>\<open>std::max (a, b)\<close> is \<open>(a < b) ? b : a\<close>.\<close>

definition d_max :: "double \<Rightarrow> double \<Rightarrow> double" where
  "d_max a b = (if d_lt a b then b else a)"

text \<open>\<open>pow (b, x)\<close> for a finite base above 1.\<close>

fun d_pow :: "real \<Rightarrow> double \<Rightarrow> double" where
  "d_pow b (Finite x) = rnd (b powr x)"
| "d_pow b PlusInf = PlusInf"
| "d_pow b MinusInf = Finite 0"
| "d_pow b NaN = NaN"

text \<open>The value of the literal \<open>2.71828\<close>.\<close>

definition literal_2_71828 :: real where
  "literal_2_71828 = round53 2.71828"

subsection \<open>The state\<close>

text \<open>The congestion states of \<open>TcpSocketState\<close> in ns-3.\<close>

datatype TcpCongState_t = CA_OPEN | CA_DISORDER | CA_CWR | CA_RECOVERY | CA_LOSS

text \<open>The fields of \<open>TcpSocketState\<close> that the class reads or writes.\<close>

record TcpSocketState =
  m_cWnd :: uint32
  m_ssThresh :: uint32
  m_segmentSize :: uint32
  m_congState :: TcpCongState_t

text \<open>
  The members of \<open>TcpShtcp\<close>, declared as in the header of H-TCP, which the source
  includes: the three attributes \<open>m_defaultBackoff\<close>, \<open>m_throughputRatio\<close>, \<open>m_deltaL\<close>
  and the nine members that the constructor initialises.
\<close>

record TcpShtcp =
  m_alpha :: double
  m_beta :: double
  m_defaultBackoff :: double
  m_throughputRatio :: double
  m_delta :: Time
  m_deltaL :: Time
  m_lastCon :: Time
  m_minRtt :: Time
  m_maxRtt :: Time
  m_throughput :: uint32
  m_lastThroughput :: uint32
  m_dataSent :: uint32

subsection \<open>Undefined operations and conversions\<close>

datatype fault = DivisionByZero | ConversionOutOfRange

text \<open>\<open>a / b\<close> on \<open>double\<close>.\<close>

definition double_div :: "double \<Rightarrow> double \<Rightarrow> fault + double" where
  "double_div a b = (if b = Finite 0 then Inl DivisionByZero else Inr (d_quot a b))"

text \<open>\<open>static_cast<uint32_t> (x)\<close> for a \<open>double\<close> \<open>x\<close>: the fractional part is discarded.\<close>

definition truncate :: "real \<Rightarrow> int" where
  "truncate x = (if 0 \<le> x then \<lfloor>x\<rfloor> else \<lceil>x\<rceil>)"

fun to_uint32 :: "double \<Rightarrow> fault + uint32" where
  "to_uint32 (Finite x) =
     (if 0 \<le> truncate x \<and> truncate x < 2 ^ 32 then Inr (word_of_int (truncate x))
      else Inl ConversionOutOfRange)"
| "to_uint32 d = Inl ConversionOutOfRange"

text \<open>A \<open>uint32_t\<close> converted to \<open>double\<close>: exact, the value has at most 32 bits.\<close>

definition to_double :: "uint32 \<Rightarrow> double" where
  "to_double w = Finite (real (unat w))"

definition GetSeconds :: "Time \<Rightarrow> double" where
  "GetSeconds t = Finite (round53 (real_of_int t / 1000000000))"

definition GetDouble :: "Time \<Rightarrow> double" where
  "GetDouble t = Finite (round53 (real_of_int t))"

subsection \<open>The constructor\<close>

text \<open>
  The default constructor, followed by the attribute system, which sets the three
  attributes (defaults \<open>0.5\<close>, \<open>0.2\<close> and one second).
\<close>

definition TcpShtcp_new :: "double \<Rightarrow> double \<Rightarrow> Time \<Rightarrow> TcpShtcp" where
  "TcpShtcp_new defaultBackoff throughputRatio deltaL =
     \<lparr> m_alpha = Finite 0, m_beta = Finite 0,
       m_defaultBackoff = defaultBackoff, m_throughputRatio = throughputRatio,
       m_delta = 0, m_deltaL = deltaL, m_lastCon = 0,
       m_minRtt = Time_Max, m_maxRtt = Time_Min,
       m_throughput = 0, m_lastThroughput = 0, m_dataSent = 0 \<rparr>"

subsection \<open>CongestionAvoidance\<close>

text \<open>
  In line 107 the square of the segment size is a product of two \<open>uint32_t\<close>. The window
  \<open>m_cWnd\<close> is a traced \<open>uint32_t\<close>, whose arithmetic operators in ns-3.35 return the type
  of the operation on the values they hold: the product \<open>m_cWnd * m_alpha\<close> is a \<open>double\<close>,
  and so are the sum, the quotient and the last sum. The increment is converted to
  \<open>uint32_t\<close> and added to the window, a \<open>uint32_t\<close> sum. The object is returned beside the
  socket state.
\<close>

definition CongestionAvoidance ::
  "TcpShtcp \<Rightarrow> TcpSocketState \<Rightarrow> uint32 \<Rightarrow> fault + (TcpShtcp \<times> TcpSocketState)" where
  "CongestionAvoidance s tcb segmentsAcked =
     (if segmentsAcked > 0 then
        (case double_div
                (d_add (to_double (m_segmentSize tcb * m_segmentSize tcb))
                   (d_mul (to_double (m_cWnd tcb)) (m_alpha s)))
                (to_double (m_cWnd tcb)) of
           Inl e \<Rightarrow> Inl e
         | Inr q \<Rightarrow>
             (case to_uint32 (d_max (Finite 1) (d_add q (m_alpha s))) of
                Inl e \<Rightarrow> Inl e
              | Inr inc \<Rightarrow> Inr (s, tcb\<lparr>m_cWnd := m_cWnd tcb + inc\<rparr>)))
      else Inr (s, tcb))"

subsection \<open>UpdateAlpha\<close>

definition UpdateAlpha :: "Time \<Rightarrow> TcpShtcp \<Rightarrow> TcpShtcp" where
  "UpdateAlpha now s =
     (let s1 = s\<lparr>m_delta := now - m_lastCon s\<rparr>;
          s2 = (if m_delta s1 \<le> m_deltaL s1 then s1\<lparr>m_alpha := Finite 1\<rparr>
                else
                  (let diff = m_delta s1 - m_deltaL s1;
                       diffSec = GetSeconds diff
                   in s1\<lparr>m_alpha :=
                          d_mul
                            (d_pow literal_2_71828
                               (d_quot
                                  (d_sub (d_mul (Finite 14) (GetSeconds (m_delta s1)))
                                     (d_mul (Finite 5) (GetSeconds (m_minRtt s1))))
                                  (Finite 350)))
                            (d_add (d_add (Finite 1) (d_mul (Finite 10) diffSec))
                               (d_mul (Finite (1/4)) (d_mul diffSec diffSec)))\<rparr>));
          s3 = s2\<lparr>m_alpha := d_mul (d_mul (Finite 2) (d_sub (Finite 1) (m_beta s2))) (m_alpha s2)\<rparr>
      in if d_lt (m_alpha s3) (Finite 1) then s3\<lparr>m_alpha := Finite 1\<rparr> else s3)"

subsection \<open>UpdateBeta\<close>

text \<open>
  \<open>diff / m_lastThroughput\<close> divides two \<open>uint32_t\<close>; the quotient is converted to
  \<open>double\<close> for the comparison with the threshold.
\<close>

definition UpdateBeta :: "TcpShtcp \<Rightarrow> fault + TcpShtcp" where
  "UpdateBeta s =
     (let s1 = s\<lparr>m_beta := m_defaultBackoff s\<rparr>
      in if m_throughput s1 > m_lastThroughput s1 \<and> m_lastThroughput s1 > 0 then
           (let diff = m_throughput s1 - m_lastThroughput s1
            in if d_le (to_double (diff div m_lastThroughput s1)) (m_throughputRatio s1) then
                 (case double_div (GetDouble (m_minRtt s1)) (GetDouble (m_maxRtt s1)) of
                    Inl e \<Rightarrow> Inl e
                  | Inr r \<Rightarrow>
                      Inr (s1\<lparr>m_beta :=
                             d_mul
                               (d_pow literal_2_71828
                                  (d_quot (d_neg (GetSeconds (m_delta s1))) (Finite 25)))
                               r\<rparr>))
               else Inr s1)
         else Inr s1)"

subsection \<open>GetSsThresh\<close>

definition GetSsThresh ::
  "TcpShtcp \<Rightarrow> Time \<Rightarrow> TcpSocketState \<Rightarrow> uint32 \<Rightarrow> fault + (uint32 \<times> TcpShtcp)" where
  "GetSsThresh s now tcb bytesInFlight =
     (case UpdateBeta (s\<lparr>m_lastCon := now\<rparr>) of
        Inl e \<Rightarrow> Inl e
      | Inr s1 \<Rightarrow>
          (let s2 = UpdateAlpha now s1;
               segWin = 2 * m_segmentSize tcb
           in case to_uint32 (d_mul (to_double bytesInFlight) (m_beta s2)) of
                Inl e \<Rightarrow> Inl e
              | Inr bFlight \<Rightarrow>
                  (let ssThresh = max segWin bFlight
                   in Inr (ssThresh,
                           s2\<lparr>m_minRtt := Time_Max, m_maxRtt := Time_Min,
                              m_lastThroughput := m_throughput s2,
                              m_throughput := 0, m_dataSent := 0\<rparr>))))"

subsection \<open>PktsAcked\<close>

text \<open>
  Lines 187 to 190, the bytes acknowledged in the open state; and lines 195 to 205, what
  follows the assignment of the throughput \<open>t\<close> in line 192.
\<close>

definition PktsAcked_dataSent :: "TcpShtcp \<Rightarrow> TcpSocketState \<Rightarrow> uint32 \<Rightarrow> TcpShtcp" where
  "PktsAcked_dataSent s tcb segmentsAcked =
     (if m_congState tcb = CA_OPEN
      then s\<lparr>m_dataSent := m_dataSent s + segmentsAcked * m_segmentSize tcb\<rparr>
      else s)"

definition PktsAcked_rest :: "TcpShtcp \<Rightarrow> Time \<Rightarrow> Time \<Rightarrow> uint32 \<Rightarrow> TcpShtcp" where
  "PktsAcked_rest s1 now rtt t =
     (let s2 = UpdateAlpha now (s1\<lparr>m_throughput := t\<rparr>);
          s3 = (if rtt < m_minRtt s2 then s2\<lparr>m_minRtt := rtt\<rparr> else s2)
      in if rtt > m_maxRtt s3 then s3\<lparr>m_maxRtt := rtt\<rparr> else s3)"

definition PktsAcked ::
  "TcpShtcp \<Rightarrow> Time \<Rightarrow> TcpSocketState \<Rightarrow> uint32 \<Rightarrow> Time \<Rightarrow> fault + TcpShtcp" where
  "PktsAcked s now tcb segmentsAcked rtt =
     (let s1 = PktsAcked_dataSent s tcb segmentsAcked
      in case double_div (to_double (m_dataSent s1))
                (d_sub (GetSeconds now) (GetSeconds (m_lastCon s1))) of
           Inl e \<Rightarrow> Inl e
         | Inr q \<Rightarrow>
             (case to_uint32 q of
                Inl e \<Rightarrow> Inl e
              | Inr t \<Rightarrow> Inr (PktsAcked_rest s1 now rtt t)))"

subsection \<open>Reachable states\<close>

text \<open>
  The states of a controller that the host stack can produce, with the time of the last
  call. The constructor runs with a backoff that the attribute checker accepts, a finite
  value from 0 to 1. Then follows any sequence of calls on a clock of 64 bits that never
  goes back, with positive RTT samples of 64 bits. Where the throughput of \<open>PktsAcked\<close> is
  undefined, the call goes on with an arbitrary throughput.
\<close>

inductive reachable :: "TcpShtcp \<Rightarrow> Time \<Rightarrow> bool" where
  constructed:
    "0 \<le> defaultBackoff \<Longrightarrow> defaultBackoff \<le> 1 \<Longrightarrow>
     reachable (TcpShtcp_new (Finite defaultBackoff) throughputRatio deltaL) 0"
| acked:
    "reachable s t \<Longrightarrow> t \<le> now \<Longrightarrow> now \<le> Time_Max \<Longrightarrow> 0 < rtt \<Longrightarrow> rtt \<le> Time_Max \<Longrightarrow>
     PktsAcked s now tcb segmentsAcked rtt = Inr s' \<Longrightarrow> reachable s' now"
| acked_undefined:
    "reachable s t \<Longrightarrow> t \<le> now \<Longrightarrow> now \<le> Time_Max \<Longrightarrow> 0 < rtt \<Longrightarrow> rtt \<le> Time_Max \<Longrightarrow>
     PktsAcked s now tcb segmentsAcked rtt = Inl e \<Longrightarrow>
     reachable (PktsAcked_rest (PktsAcked_dataSent s tcb segmentsAcked) now rtt throughput) now"
| congestion:
    "reachable s t \<Longrightarrow> t \<le> now \<Longrightarrow> now \<le> Time_Max \<Longrightarrow>
     GetSsThresh s now tcb bytesInFlight = Inr (ssThresh, s') \<Longrightarrow> reachable s' now"
| avoidance:
    "reachable s t \<Longrightarrow>
     CongestionAvoidance s tcb segmentsAcked = Inr (s', tcb') \<Longrightarrow> reachable s' t"


subsection \<open>The formulas of the specification\<close>

text \<open>
  The window of the specification on unbounded numbers, in exact arithmetic. Then the
  formulas of the specification evaluated in the arithmetic of \<open>double\<close>: the increment
  of the window on sizes that are natural numbers, not reduced to 32 bits, and the two
  factors with the base \<open>b\<close> of the exponential a parameter (the specification takes the
  base of the natural exponential, \<open>exp 1\<close>).
\<close>

definition OnCongestionAvoidance_spec :: "nat \<Rightarrow> nat \<Rightarrow> nat \<Rightarrow> real \<Rightarrow> int" where
  "OnCongestionAvoidance_spec window segmentSize segmentsAcked alpha =
     (if segmentsAcked = 0 then int window
      else int window
           + \<lfloor>max 1 (((real segmentSize)\<^sup>2 + real window * alpha) / real window + alpha)\<rfloor>)"

definition OnCongestionAvoidance_adder :: "nat \<Rightarrow> nat \<Rightarrow> double \<Rightarrow> double" where
  "OnCongestionAvoidance_adder window segmentSize alpha =
     d_max (Finite 1)
       (d_add
          (d_quot (d_add (Finite (real (segmentSize ^ 2))) (d_mul (Finite (real window)) alpha))
             (Finite (real window)))
          alpha)"

definition UpdateAlpha_spec :: "real \<Rightarrow> Time \<Rightarrow> TcpShtcp \<Rightarrow> double" where
  "UpdateAlpha_spec b now s =
     (let delta = now - m_lastCon s;
          diffSec = GetSeconds (delta - m_deltaL s);
          pre = (if delta \<le> m_deltaL s then Finite 1
                 else d_mul
                        (d_pow b
                           (d_quot
                              (d_sub (d_mul (Finite 14) (GetSeconds delta))
                                 (d_mul (Finite 5) (GetSeconds (m_minRtt s))))
                              (Finite 350)))
                        (d_add (d_add (Finite 1) (d_mul (Finite 10) diffSec))
                           (d_mul (Finite (1/4)) (d_mul diffSec diffSec))))
      in d_max (d_mul (d_mul (Finite 2) (d_sub (Finite 1) (m_beta s))) pre) (Finite 1))"

definition UpdateBeta_value :: "real \<Rightarrow> TcpShtcp \<Rightarrow> double" where
  "UpdateBeta_value b s =
     d_mul (d_pow b (d_quot (d_neg (GetSeconds (m_delta s))) (Finite 25)))
       (d_quot (GetDouble (m_minRtt s)) (GetDouble (m_maxRtt s)))"


text \<open>The threshold of the specification on unbounded numbers, in exact arithmetic.\<close>

definition GetNewSsThresh_spec :: "nat \<Rightarrow> nat \<Rightarrow> real \<Rightarrow> int" where
  "GetNewSsThresh_spec bytesInFlight segmentSize beta =
     max (2 * int segmentSize) \<lfloor>real bytesInFlight * beta\<rfloor>"

subsection \<open>Example inputs\<close>

text \<open>
  A controller with the default attributes, and a socket in the open state with segments
  of 1000 bytes and a window of 10000 bytes.
\<close>

definition example_controller :: TcpShtcp where
  "example_controller = TcpShtcp_new (Finite (1/2)) (rnd (1/5)) 1000000000"

definition example_tcb :: TcpSocketState where
  "example_tcb = \<lparr> m_cWnd = 10000, m_ssThresh = 65535, m_segmentSize = 1000,
                   m_congState = CA_OPEN \<rparr>"

subsection \<open>The invariant of the reachable states\<close>

definition epoch_inv :: "TcpShtcp \<Rightarrow> Time \<Rightarrow> bool" where
  "epoch_inv s t =
     (0 \<le> m_lastCon s \<and> m_lastCon s \<le> t \<and> t \<le> Time_Max \<and>
      0 \<le> m_delta s \<and> m_delta s \<le> Time_Max \<and>
      0 < m_minRtt s \<and> m_maxRtt s \<le> Time_Max \<and>
      (m_throughput s = 0 \<or> m_minRtt s \<le> m_maxRtt s) \<and>
      (\<exists>d. m_defaultBackoff s = Finite d \<and> 0 \<le> d \<and> d \<le> 1) \<and>
      (\<exists>b. m_beta s = Finite b \<and> 0 \<le> b \<and> b \<le> 1))"

section \<open>Auxiliary facts\<close>

subsection \<open>Rounding\<close>


lemma rne_of_int [simp]: "rne (of_int n) = n"
  by (simp add: rne_def)

lemma rne_0 [simp]: "rne 0 = 0"
  using rne_of_int [of 0] by simp

lemma rne_lower: "\<lfloor>y\<rfloor> \<le> rne y"
  by (simp add: rne_def Let_def)

lemma rne_upper: "rne y \<le> \<lceil>y\<rceil>"
proof (cases "y = of_int \<lfloor>y\<rfloor>")
  case True
  then have "rne y = \<lfloor>y\<rfloor>" by (metis rne_of_int)
  then show ?thesis by (simp add: floor_le_ceiling)
next
  case False
  then have "\<lceil>y\<rceil> = \<lfloor>y\<rfloor> + 1"
    by (metis ceiling_altdef)
  then show ?thesis by (simp add: rne_def Let_def)
qed

lemma rne_mono: "x \<le> y \<Longrightarrow> rne x \<le> rne y"
proof -
  assume xy: "x \<le> y"
  have fl: "\<lfloor>x\<rfloor> \<le> \<lfloor>y\<rfloor>" using xy by (rule floor_mono)
  show ?thesis
  proof (cases "\<lfloor>x\<rfloor> = \<lfloor>y\<rfloor>")
    case True
    then show ?thesis using xy by (auto simp: rne_def Let_def)
  next
    case False
    with fl have lt: "\<lfloor>x\<rfloor> + 1 \<le> \<lfloor>y\<rfloor>" by simp
    have "rne x \<le> \<lfloor>x\<rfloor> + 1" by (simp add: rne_def Let_def)
    also note lt
    also have "\<lfloor>y\<rfloor> \<le> rne y" by (rule rne_lower)
    finally show ?thesis .
  qed
qed

lemma rne_ge_int: "of_int n \<le> y \<Longrightarrow> n \<le> rne y"
  using rne_mono [of "of_int n" y] by simp

lemma rne_le_int: "y \<le> of_int n \<Longrightarrow> rne y \<le> n"
  using rne_mono [of y "of_int n"] by simp

lemma rne_minus: "rne (- y) = - rne y"
proof (cases "y = of_int \<lfloor>y\<rfloor>")
  case True
  then obtain n where "y = of_int n" ..
  then show ?thesis by (simp flip: of_int_minus)
next
  case False
  then have c: "\<lceil>y\<rceil> = \<lfloor>y\<rfloor> + 1" by (metis ceiling_altdef)
  have f: "\<lfloor>- y\<rfloor> = - \<lfloor>y\<rfloor> - 1" using c by (simp add: floor_minus)
  have fr: "0 < y - of_int \<lfloor>y\<rfloor>" using False by (smt (verit) of_int_floor_le)
  show ?thesis
    by (auto simp: rne_def Let_def f)
qed


lemma binade_iff:
  assumes "x \<noteq> 0"
  shows "binade_exp x = k \<longleftrightarrow> 2 powi k \<le> \<bar>x\<bar> \<and> \<bar>x\<bar> < 2 powi (k + 1)"
proof -
  have "\<lfloor>log 2 \<bar>x\<bar>\<rfloor> = k \<longleftrightarrow> 2 powr (of_int k) \<le> \<bar>x\<bar> \<and> \<bar>x\<bar> < 2 powr (of_int (k + 1))"
    using floor_log_eq_powr_iff [of "\<bar>x\<bar>" 2 k] assms by simp
  then show ?thesis by (simp only: powr_real_of_int' [of 2, simplified] binade_exp_def)
qed

lemma binade:
  assumes "x \<noteq> 0"
  shows "2 powi binade_exp x \<le> \<bar>x\<bar>" "\<bar>x\<bar> < 2 powi (binade_exp x + 1)"
  using binade_iff [OF assms, of "binade_exp x"] by simp_all

lemma binade_mono:
  assumes "x \<noteq> 0" "\<bar>x\<bar> \<le> \<bar>y\<bar>"
  shows "binade_exp x \<le> binade_exp y"
proof -
  have "log 2 \<bar>x\<bar> \<le> log 2 \<bar>y\<bar>" using assms by simp
  then show ?thesis unfolding binade_exp_def by (rule floor_mono)
qed

lemma binade_exp_minus [simp]: "binade_exp (- x) = binade_exp x"
  by (simp add: binade_exp_def)

lemma ulp_exp_minus [simp]: "ulp_exp (- x) = ulp_exp x"
  by (simp add: ulp_exp_def)

lemma ulp_exp_mono: "x \<noteq> 0 \<Longrightarrow> \<bar>x\<bar> \<le> \<bar>y\<bar> \<Longrightarrow> ulp_exp x \<le> ulp_exp y"
  using binade_mono [of x y] by (simp add: ulp_exp_def)

lemma ulp_exp_ge: "- 1074 \<le> ulp_exp x"
  by (simp add: ulp_exp_def)

lemma pow2_pos [simp]: "0 < (2::real) powi k"
  by (simp add: zero_less_power_int)

lemma round53_minus: "round53 (- x) = - round53 x"
  by (simp add: round53_def rne_minus)

lemma round53_grid_ge:
  assumes "of_int i * 2 powi ulp_exp x \<le> x"
  shows "of_int i * 2 powi ulp_exp x \<le> round53 x"
proof (cases "x = 0")
  case True
  with assms show ?thesis by (simp add: round53_def)
next
  case False
  have "of_int i \<le> x / 2 powi ulp_exp x"
    using assms by (simp add: pos_le_divide_eq)
  then have "i \<le> rne (x / 2 powi ulp_exp x)" by (rule rne_ge_int)
  then have "(of_int i :: real) \<le> of_int (rne (x / 2 powi ulp_exp x))" by simp
  then show ?thesis using False by (simp add: round53_def)
qed

lemma round53_grid_le:
  assumes "x \<le> of_int i * 2 powi ulp_exp x"
  shows "round53 x \<le> of_int i * 2 powi ulp_exp x"
proof (cases "x = 0")
  case True
  with assms show ?thesis by (simp add: round53_def)
next
  case False
  have "x / 2 powi ulp_exp x \<le> of_int i"
    using assms by (simp add: pos_divide_le_eq)
  then have "rne (x / 2 powi ulp_exp x) \<le> i" by (rule rne_le_int)
  then have "(of_int (rne (x / 2 powi ulp_exp x)) :: real) \<le> of_int i" by simp
  then show ?thesis using False by (simp add: round53_def)
qed

lemma round53_nonneg: "0 \<le> x \<Longrightarrow> 0 \<le> round53 x"
  using round53_grid_ge [of 0 x] by simp

lemma round53_nonpos: "x \<le> 0 \<Longrightarrow> round53 x \<le> 0"
  using round53_grid_le [of x 0] by simp

text \<open>A power of two at or above the unit in the last place is on the grid.\<close>

lemma pow2_on_grid:
  assumes "e \<le> j"
  shows "(2::real) powi j = of_int (2 ^ nat (j - e)) * 2 powi e"
proof -
  have "(2::real) powi j = 2 powi (j - e) * 2 powi e"
    by (simp flip: power_int_add)
  also have "(2::real) powi (j - e) = of_int (2 ^ nat (j - e))"
    using assms by (simp add: power_int_def)
  finally show ?thesis .
qed

lemma round53_ge_pow2:
  assumes "2 powi j \<le> x" "ulp_exp x \<le> j"
  shows "2 powi j \<le> round53 x"
proof -
  have eq: "(2::real) powi j = of_int (2 ^ nat (j - ulp_exp x)) * 2 powi ulp_exp x"
    using assms(2) by (rule pow2_on_grid)
  show ?thesis using assms(1) unfolding eq by (rule round53_grid_ge)
qed

lemma round53_le_pow2:
  assumes "x \<le> 2 powi j" "ulp_exp x \<le> j"
  shows "round53 x \<le> 2 powi j"
proof -
  have eq: "(2::real) powi j = of_int (2 ^ nat (j - ulp_exp x)) * 2 powi ulp_exp x"
    using assms(2) by (rule pow2_on_grid)
  show ?thesis using assms(1) unfolding eq by (rule round53_grid_le)
qed


text \<open>Monotonicity on the positive reals.\<close>

lemma round53_mono_pos:
  assumes "0 < x" "x \<le> y"
  shows "round53 x \<le> round53 y"
proof -
  have y: "0 < y" using assms by simp
  have e: "ulp_exp x \<le> ulp_exp y" using assms by (intro ulp_exp_mono) simp_all
  show ?thesis
  proof (cases "ulp_exp x = ulp_exp y")
    case True
    have "x / 2 powi ulp_exp y \<le> y / 2 powi ulp_exp y"
      using assms by (simp add: divide_right_mono)
    then have "rne (x / 2 powi ulp_exp y) \<le> rne (y / 2 powi ulp_exp y)" by (rule rne_mono)
    then have "(of_int (rne (x / 2 powi ulp_exp y)) :: real) * 2 powi ulp_exp y
                 \<le> of_int (rne (y / 2 powi ulp_exp y)) * 2 powi ulp_exp y"
      by (simp add: mult_right_mono)
    then show ?thesis using assms y True by (simp add: round53_def)
  next
    case False
    with e have lt: "ulp_exp x < ulp_exp y" by simp
    define k where "k = binade_exp y"
    have ky: "ulp_exp y = k - 52"
      using lt ulp_exp_ge [of x] by (auto simp: ulp_exp_def k_def max_def split: if_splits)
    have yk: "2 powi k \<le> y" using binade(1) [of y] y by (simp add: k_def)
    have xk: "x < 2 powi k"
    proof (rule ccontr)
      assume "\<not> x < 2 powi k"
      then have "2 powi k \<le> \<bar>x\<bar>" using assms by simp
      moreover have "\<bar>x\<bar> < 2 powi (k + 1)"
        using binade(2) [of y] y assms by (simp add: k_def)
      ultimately have "binade_exp x = k" using binade_iff [of x k] assms by simp
      then have "ulp_exp x = ulp_exp y" by (simp add: ulp_exp_def k_def)
      with False show False by simp
    qed
    have "round53 x \<le> 2 powi k"
      using xk lt ky by (intro round53_le_pow2) simp_all
    also have "2 powi k \<le> round53 y"
      using yk ky by (intro round53_ge_pow2) simp_all
    finally show ?thesis .
  qed
qed

lemma round53_mono: "x \<le> y \<Longrightarrow> round53 x \<le> round53 y"
proof -
  assume xy: "x \<le> y"
  consider "0 < x" | "x \<le> 0" "0 \<le> y" | "y < 0" by linarith
  then show ?thesis
  proof cases
    case 1
    then show ?thesis using xy by (rule round53_mono_pos)
  next
    case 2
    then show ?thesis using round53_nonpos [of x] round53_nonneg [of y] by simp
  next
    case 3
    then have "round53 (- y) \<le> round53 (- x)" using xy by (intro round53_mono_pos) simp_all
    then show ?thesis by (simp add: round53_minus)
  qed
qed

text \<open>Numbers with at most 53 significant bits, above the smallest exponent, are fixed.\<close>

lemma round53_exact:
  assumes i: "\<bar>i\<bar> < 2 ^ 53" and j: "- 1074 \<le> j"
  shows "round53 (of_int i * 2 powi j) = of_int i * 2 powi j"
proof (cases "i = 0")
  case True
  then show ?thesis by (simp add: round53_def)
next
  case False
  define x where "x = of_int i * (2::real) powi j"
  have x0: "x \<noteq> 0" using False by (simp add: x_def)
  define k where "k = binade_exp x"
  have "2 powi k \<le> \<bar>x\<bar>" using binade(1) [OF x0] by (simp add: k_def)
  also have "\<bar>x\<bar> = of_int \<bar>i\<bar> * 2 powi j" by (simp add: x_def abs_mult)
  also have "\<dots> < 2 ^ 53 * 2 powi j"
  proof -
    have "(of_int \<bar>i\<bar> :: real) < of_int (2 ^ 53)" using i by (simp only: of_int_less_iff)
    then show ?thesis by (simp add: mult_strict_right_mono)
  qed
  also have "\<dots> = 2 powi (j + 53)" by (simp add: power_int_add)
  finally have "(2::real) powi k < 2 powi (j + 53)" .
  then have "k < j + 53"
    using power_int_increasing [of "j + 53" k "2::real"] by (cases "k < j + 53") simp_all
  then have e: "ulp_exp x \<le> j" using j by (simp add: ulp_exp_def k_def)
  have "x / 2 powi ulp_exp x = of_int i * 2 powi (j - ulp_exp x)"
    by (simp add: x_def power_int_diff)
  also have "(2::real) powi (j - ulp_exp x) = of_int (2 ^ nat (j - ulp_exp x))"
    using e by (simp add: power_int_def)
  finally have "x / 2 powi ulp_exp x = of_int (i * 2 ^ nat (j - ulp_exp x))" by simp
  then have "rne (x / 2 powi ulp_exp x) = i * 2 ^ nat (j - ulp_exp x)"
    by (simp only: rne_of_int)
  then have "round53 x = of_int (i * 2 ^ nat (j - ulp_exp x)) * 2 powi ulp_exp x"
    using x0 by (simp add: round53_def)
  also have "\<dots> = of_int i * (of_int (2 ^ nat (j - ulp_exp x)) * 2 powi ulp_exp x)" by simp
  also have "\<dots> = of_int i * 2 powi j" using e by (simp only: pow2_on_grid [symmetric])
  finally show ?thesis by (simp add: x_def)
qed


lemma round53_of_int: "\<bar>n\<bar> < 2 ^ 53 \<Longrightarrow> round53 (of_int n) = of_int n"
  using round53_exact [of n 0] by simp

lemma round53_pow2: "- 1074 \<le> j \<Longrightarrow> round53 (2 powi j) = 2 powi j"
  using round53_exact [of 1 j] by simp

lemma round53_numeral [simp]:
  "round53 0 = 0" "round53 1 = 1"
  using round53_of_int [of 0] round53_of_int [of 1] by simp_all

text \<open>Evaluation in a known binade.\<close>

lemma round53_eval:
  assumes "2 powi k \<le> \<bar>x\<bar>" "\<bar>x\<bar> < 2 powi (k + 1)" "- 1022 \<le> k"
  shows "round53 x = of_int (rne (x / 2 powi (k - 52))) * 2 powi (k - 52)"
proof -
  have "0 < \<bar>x\<bar>" using assms(1) pow2_pos [of k] by linarith
  then have x0: "x \<noteq> 0" by simp
  have "binade_exp x = k" using binade_iff [OF x0, of k] assms by simp
  then have "ulp_exp x = k - 52" using assms(3) by (simp add: ulp_exp_def)
  then show ?thesis using x0 by (simp add: round53_def)
qed

lemma round53_eval_subnormal:
  assumes "\<bar>x\<bar> < 2 powi (- 1022)"
  shows "round53 x = of_int (rne (x / 2 powi (- 1074))) * 2 powi (- 1074)"
proof (cases "x = 0")
  case True
  then show ?thesis by (simp add: round53_def)
next
  case False
  have "binade_exp x < - 1022"
  proof (rule ccontr)
    assume "\<not> binade_exp x < - 1022"
    then have "(2::real) powi (- 1022) \<le> 2 powi binade_exp x"
      by (intro power_int_increasing) simp_all
    also have "\<dots> \<le> \<bar>x\<bar>" using binade(1) [OF False] .
    finally show False using assms by simp
  qed
  then have "ulp_exp x = - 1074" by (simp add: ulp_exp_def)
  then show ?thesis using False by (simp add: round53_def)
qed

lemma rne_small: "\<bar>y\<bar> < 1/2 \<Longrightarrow> rne y = 0"
proof -
  assume a: "\<bar>y\<bar> < 1/2"
  have "rne (- (1/2)) \<le> rne y" using a by (intro rne_mono) simp
  moreover have "rne y \<le> rne (1/2)" using a by (intro rne_mono) simp
  moreover have "rne (1/2) = 0" by (simp add: rne_def)
  moreover have "rne (- (1/2)) = 0" by (simp add: rne_def)
  ultimately show ?thesis by simp
qed

lemma round53_underflow: "\<bar>x\<bar> < 2 powi (- 1075) \<Longrightarrow> round53 x = 0"
proof -
  assume a: "\<bar>x\<bar> < 2 powi (- 1075)"
  have "(2::real) powi (- 1075) \<le> 2 powi (- 1022)" by (intro power_int_increasing) simp_all
  with a have s: "\<bar>x\<bar> < 2 powi (- 1022)" by simp
  have "\<bar>x / 2 powi (- 1074)\<bar> = \<bar>x\<bar> * 2 powi 1074"
    by (simp add: abs_mult power_int_minus field_simps)
  also have "\<dots> < 2 powi (- 1075) * 2 powi 1074"
    using a by (intro mult_strict_right_mono) simp_all
  also have "\<dots> = 1/2" by (simp flip: power_int_add)
  finally have "rne (x / 2 powi (- 1074)) = 0" by (rule rne_small)
  then show ?thesis using round53_eval_subnormal [OF s] by simp
qed

text \<open>The results of rounding are fixed by rounding.\<close>

lemma round53_idem: "round53 (round53 x) = round53 x"
proof (cases "x = 0")
  case True
  then show ?thesis by simp
next
  case False
  define e where "e = ulp_exp x"
  define m where "m = rne (x / 2 powi e)"
  have v: "round53 x = of_int m * 2 powi e" using False by (simp add: round53_def m_def e_def)
  have e: "- 1074 \<le> e" "binade_exp x - 52 \<le> e" by (simp_all add: e_def ulp_exp_def)
  have "\<bar>x\<bar> < 2 powi (binade_exp x + 1)" using binade(2) [OF False] .
  also have "\<dots> \<le> 2 powi (e + 53)" using e by (intro power_int_increasing) simp_all
  also have "\<dots> = 2 ^ 53 * 2 powi e" by (simp add: power_int_add)
  finally have b: "\<bar>x\<bar> / 2 powi e < 2 ^ 53" by (simp add: pos_divide_less_eq)
  have u: "x / 2 powi e \<le> \<bar>x\<bar> / 2 powi e" by (intro divide_right_mono) simp_all
  have "(- \<bar>x\<bar>) / 2 powi e \<le> x / 2 powi e" by (intro divide_right_mono) simp_all
  then have l: "- (\<bar>x\<bar> / 2 powi e) \<le> x / 2 powi e" by simp
  have "x / 2 powi e \<le> 2 ^ 53" "- (2 ^ 53) \<le> x / 2 powi e"
    using b u l by linarith+
  then have q: "x / 2 powi e \<le> of_int (2 ^ 53)" "of_int (- (2 ^ 53)) \<le> x / 2 powi e"
    by simp_all
  have m: "m \<le> 2 ^ 53" "- (2 ^ 53) \<le> m"
    unfolding m_def using q(1) rne_le_int apply blast
    using q(2) rne_ge_int apply blast
    done
  consider "\<bar>m\<bar> < 2 ^ 53" | "m = 2 ^ 53" | "m = - (2 ^ 53)" using m by linarith
  then show ?thesis
  proof cases
    case 1
    then show ?thesis unfolding v using e(1) by (rule round53_exact)
  next
    case 2
    then have "round53 x = 2 powi (e + 53)" by (simp add: v power_int_add)
    then show ?thesis using e(1) by (simp add: round53_pow2)
  next
    case 3
    then have "round53 x = - (2 powi (e + 53))" by (simp add: v power_int_add)
    then show ?thesis using e(1) by (simp add: round53_pow2 round53_minus)
  qed
qed

subsection \<open>rnd\<close>

lemma huge_pos [simp]: "0 < huge"
  by (simp add: huge_def)

lemma rnd_Finite: "round53 x < huge \<Longrightarrow> - huge < round53 x \<Longrightarrow> rnd x = Finite (round53 x)"
  by (simp add: rnd_def Let_def)

lemma rnd_between:
  assumes a: "round53 a = a" and b: "round53 b = b"
    and ax: "a \<le> x" and xb: "x \<le> b" and ra: "- huge < a" and rb: "b < huge"
  shows "rnd x = Finite (round53 x) \<and> a \<le> round53 x \<and> round53 x \<le> b"
proof -
  have "round53 a \<le> round53 x" using ax by (rule round53_mono)
  moreover have "round53 x \<le> round53 b" using xb by (rule round53_mono)
  ultimately have "a \<le> round53 x" "round53 x \<le> b" using a b by simp_all
  then show ?thesis using ra rb by (simp add: rnd_Finite)
qed

lemma rnd_overflow: "huge \<le> x \<Longrightarrow> rnd x = PlusInf"
proof -
  assume "huge \<le> x"
  then have "round53 huge \<le> round53 x" by (rule round53_mono)
  moreover have "round53 huge = huge" unfolding huge_def by (rule round53_pow2) simp
  ultimately show ?thesis by (simp add: rnd_def)
qed

lemma rnd_underflow: "\<bar>x\<bar> < 2 powi (- 1075) \<Longrightarrow> rnd x = Finite 0"
  by (simp add: round53_underflow rnd_def not_le)

lemma pow2_less_huge: "j < 1024 \<Longrightarrow> 2 powi j < huge"
  unfolding huge_def by (intro power_int_strict_increasing) simp_all

lemma int_less_huge: "\<bar>n\<bar> < 2 ^ 64 \<Longrightarrow> \<bar>of_int n\<bar> < huge"
proof -
  assume a: "\<bar>n\<bar> < 2 ^ 64"
  then have "(of_int \<bar>n\<bar> :: real) < of_int (2 ^ 64)" by (simp only: of_int_less_iff)
  then have "\<bar>of_int n :: real\<bar> < 2 powi 64" by simp
  also have "\<dots> < huge" by (rule pow2_less_huge) simp
  finally show ?thesis .
qed

lemma rnd_of_int: "\<bar>n\<bar> < 2 ^ 53 \<Longrightarrow> rnd (of_int n) = Finite (of_int n)"
proof -
  assume a: "\<bar>n\<bar> < 2 ^ 53"
  then have "\<bar>n\<bar> < 2 ^ 64" by (rule less_trans) simp
  then have "\<bar>of_int n :: real\<bar> < huge" by (rule int_less_huge)
  then show ?thesis using a by (simp add: round53_of_int rnd_def abs_less_iff not_le)
qed


subsection \<open>Values that are not rounded\<close>

lemma rnd_0 [simp]: "rnd 0 = Finite 0"
  using rnd_of_int [of 0] by simp

lemma rnd_1 [simp]: "rnd 1 = Finite 1"
  using rnd_of_int [of 1] by simp

lemma rnd_numeral: "(numeral n :: int) < 2 ^ 53 \<Longrightarrow> rnd (numeral n) = Finite (numeral n)"
  using rnd_of_int [of "numeral n"] by simp

lemma rnd_neg_numeral:
  "(numeral n :: int) < 2 ^ 53 \<Longrightarrow> rnd (- numeral n) = Finite (- numeral n)"
  using rnd_of_int [of "- numeral n"] by simp

lemma round53_num: "(numeral n :: int) < 2 ^ 53 \<Longrightarrow> round53 (numeral n) = numeral n"
  using round53_of_int [of "numeral n"] by simp

lemma rnd_nat: "n < 2 ^ 53 \<Longrightarrow> rnd (real n) = Finite (real n)"
  using rnd_of_int [of "int n"] by simp

lemma round53_nat: "n < 2 ^ 53 \<Longrightarrow> round53 (real n) = real n"
  using round53_of_int [of "int n"] by simp

lemma rnd_dyadic:
  assumes "\<bar>i\<bar> < 2 ^ 53" "n \<le> 1074"
  shows "rnd (of_int i / 2 ^ n) = Finite (of_int i / 2 ^ n)"
proof -
  define x :: real where "x = of_int i / 2 ^ n"
  have e: "x = of_int i * 2 powi (- int n)"
    by (simp add: x_def power_int_minus divide_inverse)
  have r: "round53 x = x"
    unfolding e using assms by (intro round53_exact) simp_all
  have "\<bar>of_int i :: real\<bar> * 1 \<le> \<bar>of_int i\<bar> * 2 ^ n"
    by (intro mult_left_mono) simp_all
  then have "\<bar>x\<bar> \<le> \<bar>of_int i\<bar>"
    by (simp add: x_def abs_divide divide_le_eq)
  also have "\<dots> < huge" using assms(1) by (intro int_less_huge) simp
  finally have "x < huge" "- huge < x" by linarith+
  then have "rnd x = Finite x" using r by (simp add: rnd_def Let_def not_le)
  then show ?thesis by (simp only: x_def)
qed

lemma round53_rnd: "rnd x = Finite y \<Longrightarrow> y = round53 x"
  by (simp add: rnd_def Let_def split: if_splits)

lemma rnd_idem: "rnd x = Finite y \<Longrightarrow> rnd y = Finite y"
  by (auto simp add: rnd_def Let_def round53_idem split: if_splits)

subsection \<open>Conversions\<close>

lemma to_double_eq_0: "to_double w = Finite 0 \<longleftrightarrow> w = 0"
  by (simp add: to_double_def unsigned_eq_0_iff)

lemma unat_less_32: "unat (w::uint32) < 2 ^ 32"
  using unsigned_less [of w, where 'a = nat] by simp

lemma truncate_nonneg: "0 \<le> x \<Longrightarrow> truncate x = \<lfloor>x\<rfloor>"
  by (simp add: truncate_def)

lemma to_uint32_Inr:
  "0 \<le> x \<Longrightarrow> x < 2 ^ 32 \<Longrightarrow> to_uint32 (Finite x) = Inr (word_of_int \<lfloor>x\<rfloor>)"
proof -
  assume a: "0 \<le> x" "x < 2 ^ 32"
  have "\<lfloor>x\<rfloor> < 2 ^ 32" using a(2) by (simp add: floor_less_iff)
  then show ?thesis using a(1) by (simp add: truncate_def)
qed

declare to_uint32.simps(1) [simp del]

lemma to_uint32_nat: "n < 2 ^ 32 \<Longrightarrow> to_uint32 (Finite (real n)) = Inr (of_nat n)"
  using to_uint32_Inr [of "real n"] by simp

lemma to_uint32_numeral:
  "(numeral n :: int) < 2 ^ 32 \<Longrightarrow> to_uint32 (Finite (numeral n)) = Inr (numeral n)"
  using to_uint32_Inr [of "numeral n"] by simp

lemma to_uint32_0 [simp]: "to_uint32 (Finite 0) = Inr 0"
  using to_uint32_Inr [of 0] by simp

lemma double_div_Inr: "b \<noteq> Finite 0 \<Longrightarrow> double_div a b = Inr (d_quot a b)"
  by (simp add: double_div_def)

lemma double_div_Inl: "double_div a b = Inl e \<longleftrightarrow> b = Finite 0 \<and> e = DivisionByZero"
  by (auto simp add: double_div_def)

subsection \<open>Evaluation of a rounding\<close>

lemma rnd_eval:
  assumes "2 powi k \<le> \<bar>x\<bar>" "\<bar>x\<bar> < 2 powi (k + 1)" "- 1022 \<le> k" "k < 1023"
  shows "rnd x = Finite (of_int (rne (x / 2 powi (k - 52))) * 2 powi (k - 52))"
proof -
  have r: "round53 (2 powi (k + 1)) = 2 powi (k + 1)"
    using assms(3) by (intro round53_pow2) simp
  have h: "(2::real) powi (k + 1) < huge" using assms(4) by (intro pow2_less_huge) simp
  have "x \<le> 2 powi (k + 1)" "- (2 powi (k + 1)) \<le> x" using assms(2) by linarith+
  then have "round53 x \<le> round53 (2 powi (k + 1))" "round53 (- (2 powi (k + 1))) \<le> round53 x"
    by (simp_all only: round53_mono)
  then have "round53 x < huge" "- huge < round53 x"
    using h by (simp_all add: round53_minus r)
  then have "rnd x = Finite (round53 x)" by (simp add: rnd_Finite)
  then show ?thesis using round53_eval [OF assms(1-3)] by simp
qed

lemma rnd_upto:
  assumes "round53 b = b" "0 \<le> x" "x \<le> b" "b < huge"
  shows "\<exists>r. rnd x = Finite r \<and> 0 \<le> r \<and> r \<le> b"
proof -
  have "- huge < 0" by simp
  then have "rnd x = Finite (round53 x) \<and> 0 \<le> round53 x \<and> round53 x \<le> b"
    using assms by (intro rnd_between) simp_all
  then show ?thesis by blast
qed

lemma less_huge: "x \<le> 1 \<Longrightarrow> x < huge"
proof -
  assume "x \<le> 1"
  moreover have "1 < huge" using pow2_less_huge [of 0] by simp
  ultimately show ?thesis by linarith
qed

lemma rnd_unit:
  assumes "0 \<le> x" "x \<le> 1"
  shows "\<exists>r. rnd x = Finite r \<and> 0 \<le> r \<and> r \<le> 1"
  using assms by (intro rnd_upto less_huge) simp_all


subsection \<open>Values on the grid\<close>

lemma round53_grid:
  "\<exists>m e. round53 x = of_int m * 2 powi e \<and> \<bar>m\<bar> \<le> 2 ^ 53 \<and> - 1074 \<le> e"
proof (cases "x = 0")
  case True
  have "round53 x = of_int 0 * 2 powi 0 \<and> \<bar>0::int\<bar> \<le> 2 ^ 53 \<and> - 1074 \<le> (0::int)"
    using True by simp
  then show ?thesis by blast
next
  case False
  define e where "e = ulp_exp x"
  define m where "m = rne (x / 2 powi e)"
  have v: "round53 x = of_int m * 2 powi e" using False by (simp add: round53_def m_def e_def)
  have e: "- 1074 \<le> e" "binade_exp x - 52 \<le> e" by (simp_all add: e_def ulp_exp_def)
  have "\<bar>x\<bar> < 2 powi (binade_exp x + 1)" using binade(2) [OF False] .
  also have "\<dots> \<le> 2 powi (e + 53)" using e by (intro power_int_increasing) simp_all
  also have "\<dots> = 2 ^ 53 * 2 powi e" by (simp add: power_int_add)
  finally have b: "\<bar>x\<bar> / 2 powi e < 2 ^ 53" by (simp add: pos_divide_less_eq)
  have u: "x / 2 powi e \<le> \<bar>x\<bar> / 2 powi e" by (intro divide_right_mono) simp_all
  have "(- \<bar>x\<bar>) / 2 powi e \<le> x / 2 powi e" by (intro divide_right_mono) simp_all
  then have l: "- (\<bar>x\<bar> / 2 powi e) \<le> x / 2 powi e" by simp
  have "x / 2 powi e \<le> 2 ^ 53" "- (2 ^ 53) \<le> x / 2 powi e"
    using b u l by linarith+
  then have q: "x / 2 powi e \<le> of_int (2 ^ 53)" "of_int (- (2 ^ 53)) \<le> x / 2 powi e"
    by simp_all
  have m: "m \<le> 2 ^ 53" "- (2 ^ 53) \<le> m"
    unfolding m_def using q(1) rne_le_int apply blast
    using q(2) rne_ge_int apply blast
    done
  then have "\<bar>m\<bar> \<le> 2 ^ 53" by linarith
  then show ?thesis using v e(1) by blast
qed

lemma round53_exact_le:
  assumes m: "\<bar>m\<bar> \<le> 2 ^ 53" and e: "- 1074 \<le> e"
  shows "round53 (of_int m * 2 powi e) = of_int m * 2 powi e"
proof -
  consider "\<bar>m\<bar> < 2 ^ 53" | "m = 2 ^ 53" | "m = - (2 ^ 53)" using m by linarith
  then show ?thesis
  proof cases
    case 1
    then show ?thesis using e by (rule round53_exact)
  next
    case 2
    then have "of_int m * 2 powi e = (2::real) powi (e + 53)" by (simp add: power_int_add)
    then show ?thesis using e by (simp add: round53_pow2)
  next
    case 3
    then have "of_int m * 2 powi e = - ((2::real) powi (e + 53))" by (simp add: power_int_add)
    then show ?thesis using e by (simp add: round53_pow2 round53_minus)
  qed
qed

lemma round53_twice: "round53 (2 * round53 x) = 2 * round53 x"
proof -
  obtain m e where v: "round53 x = of_int m * 2 powi e" and m: "\<bar>m\<bar> \<le> 2 ^ 53"
    and e: "- 1074 \<le> e"
    using round53_grid [of x] by blast
  have "2 * round53 x = of_int m * 2 powi (e + 1)" by (simp add: v power_int_add)
  moreover have "round53 (of_int m * 2 powi (e + 1)) = of_int m * 2 powi (e + 1)"
    using m e by (intro round53_exact_le) simp_all
  ultimately show ?thesis by simp
qed

subsection \<open>The constant 2.71828\<close>

lemma literal_value: "literal_2_71828 = 382563899846521 / 140737488355328"
proof -
  have "round53 2.71828 = of_int (rne (2.71828 / 2 powi (1 - 52))) * 2 powi (1 - 52)"
    by (rule round53_eval) simp_all
  also have "\<dots> = 382563899846521 / 140737488355328"
    by (simp add: rne_def power_int_minus)
  finally show ?thesis by (simp only: literal_2_71828_def)
qed

lemma literal_bounds: "27 / 10 \<le> literal_2_71828" "literal_2_71828 \<le> 2 powr (3/2)"
proof -
  show "27 / 10 \<le> literal_2_71828" by (simp add: literal_value)
  have "literal_2_71828 ^ 2 \<le> 2 ^ 3" by (simp add: literal_value power2_eq_square)
  also have "(2::real) ^ 3 = (2 powr (3/2)) ^ 2"
    by (simp add: powr_powr flip: powr_numeral)
  finally show "literal_2_71828 \<le> 2 powr (3/2)"
    by (rule power2_le_imp_le) simp
qed

lemma literal_gt_1: "1 < literal_2_71828"
  by (simp add: literal_value)

lemma rnd_literal: "rnd literal_2_71828 = Finite literal_2_71828"
proof -
  have "round53 literal_2_71828 = literal_2_71828"
    unfolding literal_2_71828_def by (rule round53_idem)
  moreover have "literal_2_71828 < huge"
  proof -
    have "literal_2_71828 < 2 powi 2" by (simp add: literal_value)
    also have "\<dots> < huge" by (rule pow2_less_huge) simp
    finally show ?thesis .
  qed
  moreover have "- huge < literal_2_71828"
    using literal_gt_1 huge_pos by linarith
  ultimately show ?thesis by (simp add: rnd_Finite)
qed

text \<open>The power overflows from an exponent of 799 and underflows to zero from \<open>- 800\<close>.\<close>

lemma literal_power_798: "(2::real) ^ 1140 \<le> literal_2_71828 ^ 798"
proof -
  have "(2::real) ^ 10 \<le> (27 / 10) ^ 7" by (simp add: power_divide)
  also have "\<dots> \<le> literal_2_71828 ^ 7"
    using literal_bounds(1) by (intro power_mono) simp_all
  finally have "((2::real) ^ 10) ^ 114 \<le> (literal_2_71828 ^ 7) ^ 114"
    by (intro power_mono) simp_all
  then show ?thesis by (simp only: power_mult [symmetric]) simp
qed

lemma d_pow_overflow:
  assumes "799 \<le> x"
  shows "d_pow literal_2_71828 (Finite x) = PlusInf"
proof -
  have "huge = (2::real) ^ 1024" by (simp add: huge_def)
  also have "\<dots> \<le> 2 ^ 1140" by (intro power_increasing) simp_all
  also have "\<dots> \<le> literal_2_71828 ^ 798" by (rule literal_power_798)
  also have "\<dots> = literal_2_71828 powr 798"
    using literal_gt_1 by (simp flip: powr_numeral)
  also have "\<dots> \<le> literal_2_71828 powr x"
    using assms literal_gt_1 by (intro powr_mono) simp_all
  finally show ?thesis by (simp add: rnd_overflow)
qed

lemma inv_pow2: "1 / (2::real) ^ n = 2 powi (- int n)"
  by (simp add: power_int_minus divide_inverse)

lemma d_pow_underflow:
  assumes "x \<le> - 800"
  shows "d_pow literal_2_71828 (Finite x) = Finite 0"
proof -
  have p: "0 < literal_2_71828" using literal_gt_1 by simp
  have "literal_2_71828 powr x \<le> literal_2_71828 powr (- 798)"
    using assms literal_gt_1 by (intro powr_mono) simp_all
  also have "\<dots> = 1 / literal_2_71828 powr 798"
    by (simp only: powr_minus divide_inverse mult_1)
  also have "literal_2_71828 powr 798 = literal_2_71828 ^ 798"
    using p by (simp only: powr_numeral)
  also have "1 / literal_2_71828 ^ 798 \<le> 1 / 2 ^ 1140"
    using literal_power_798
    by (rule divide_left_mono)
      (simp_all only: zero_le_one mult_pos_pos zero_less_power zero_less_numeral p)
  also have "\<dots> = 2 powi (- int 1140)" by (rule inv_pow2)
  also have "\<dots> = 2 powi (- 1140)" by (simp only: of_nat_numeral)
  also have "\<dots> < 2 powi (- 1075)" by (intro power_int_strict_increasing) simp_all
  finally have "literal_2_71828 powr x < 2 powi (- 1075)" .
  moreover have "0 \<le> literal_2_71828 powr x" by simp
  ultimately have "\<bar>literal_2_71828 powr x\<bar> < 2 powi (- 1075)" by simp
  then show ?thesis by (simp add: rnd_underflow)
qed

lemma one_less_huge [simp]: "1 < huge"
  using pow2_less_huge [of 0] by simp

text \<open>A power with an exponent that is not positive is a finite value from 0 to 1.\<close>

lemma d_pow_decay:
  assumes "x \<le> 0"
  shows "\<exists>p. d_pow literal_2_71828 (Finite x) = Finite p \<and> 0 \<le> p \<and> p \<le> 1"
proof -
  have "literal_2_71828 powr x \<le> literal_2_71828 powr 0"
    using assms literal_gt_1 by (intro powr_mono) simp_all
  then have "literal_2_71828 powr x \<le> 1" using literal_gt_1 by simp
  moreover have "0 \<le> literal_2_71828 powr x" by simp
  ultimately have "rnd (literal_2_71828 powr x) = Finite (round53 (literal_2_71828 powr x)) \<and>
      0 \<le> round53 (literal_2_71828 powr x) \<and> round53 (literal_2_71828 powr x) \<le> 1"
    by (intro rnd_between) simp_all
  then show ?thesis by simp
qed

text \<open>The base of the natural exponential is above \<open>2850325 / 2 ^ 20\<close>, which is above 2.71828.\<close>

lemma e_lower: "(2850325 / 1048576 :: real) < exp 1"
proof -
  obtain t where e: "exp (1::real) = (\<Sum>m<11. (1 ^ m) / fact m) + (exp t / fact 11) * 1 ^ 11"
    using Maclaurin_exp_le [of 1 11] by blast
  have "(2850325 / 1048576 :: real) < (\<Sum>m<11. (1 ^ m) / fact m)"
    by (simp add: lessThan_nat_numeral lessThan_Suc fact_numeral)
  moreover have "0 \<le> (exp t / fact 11) * 1 ^ 11" by simp
  ultimately show ?thesis using e by linarith
qed

lemma d_pow_one: "d_pow literal_2_71828 (Finite 1) = Finite literal_2_71828"
  using literal_gt_1 by (simp add: rnd_literal)

lemma d_pow_zero: "d_pow literal_2_71828 (Finite 0) = Finite 1"
  using literal_gt_1 by simp

subsection \<open>The example inputs\<close>

lemma record_eq:
  "(s = s') \<longleftrightarrow>
      m_alpha s = m_alpha s' \<and> m_beta s = m_beta s' \<and>
      m_defaultBackoff s = m_defaultBackoff s' \<and> m_throughputRatio s = m_throughputRatio s' \<and>
      m_delta s = m_delta s' \<and> m_deltaL s = m_deltaL s' \<and> m_lastCon s = m_lastCon s' \<and>
      m_minRtt s = m_minRtt s' \<and> m_maxRtt s = m_maxRtt s' \<and>
      m_throughput s = m_throughput s' \<and> m_lastThroughput s = m_lastThroughput s' \<and>
      m_dataSent s = m_dataSent (s' :: TcpShtcp)"
  by auto

lemma rnd_half: "rnd (1/2) = Finite (1/2)"
  using rnd_dyadic [of 1 1] by simp

lemma rnd_fifth: "rnd (1/5) = Finite (3602879701896397 / 18014398509481984)"
proof -
  have "rnd (1/5) = Finite (of_int (rne ((1/5) / 2 powi (- 3 - 52))) * 2 powi (- 3 - 52))"
    by (rule rnd_eval) (simp_all add: power_int_minus)
  also have "\<dots> = Finite (3602879701896397 / 18014398509481984)"
    by (simp add: rne_def power_int_minus)
  finally show ?thesis .
qed

lemma example_controller_fields:
  "m_alpha example_controller = Finite 0"
  "m_beta example_controller = Finite 0"
  "m_defaultBackoff example_controller = Finite (1/2)"
  "m_throughputRatio example_controller = Finite (3602879701896397 / 18014398509481984)"
  "m_delta example_controller = 0"
  "m_deltaL example_controller = 1000000000"
  "m_lastCon example_controller = 0"
  "m_minRtt example_controller = Time_Max"
  "m_maxRtt example_controller = Time_Min"
  "m_throughput example_controller = 0"
  "m_lastThroughput example_controller = 0"
  "m_dataSent example_controller = 0"
  by (simp_all add: example_controller_def TcpShtcp_new_def rnd_fifth)

lemma example_tcb_fields:
  "m_cWnd example_tcb = 10000"
  "m_ssThresh example_tcb = 65535"
  "m_segmentSize example_tcb = 1000"
  "m_congState example_tcb = CA_OPEN"
  by (simp_all add: example_tcb_def)


section \<open>CongestionAvoidance\<close>

lemma d_max_1_Finite: "d_max (Finite 1) x = Finite a \<Longrightarrow> 1 \<le> a"
  by (cases x) (auto simp add: d_max_def split: if_splits)

lemma to_double_square:
  assumes "unat (w::uint32) < 2 ^ 16"
  shows "to_double (w * w) = Finite (real ((unat w)\<^sup>2))"
proof -
  have "unat w * unat w < 2 ^ 16 * 2 ^ 16"
    using assms by (intro mult_strict_mono) simp_all
  then have "unat w * unat w < 2 ^ 32" by simp
  then have "unat (w * w) = unat w * unat w"
    by (simp add: unat_mult_lem [THEN iffD1])
  then show ?thesis by (simp add: to_double_def power2_eq_square)
qed

lemma CongestionAvoidance_in_range:
  assumes acked: "0 < segmentsAcked" and window: "0 < m_cWnd tcb"
    and seg: "unat (m_segmentSize tcb) < 2 ^ 16"
    and adder: "OnCongestionAvoidance_adder (unat (m_cWnd tcb)) (unat (m_segmentSize tcb))
                  (m_alpha s) = Finite a"
    and rng: "int (unat (m_cWnd tcb)) + \<lfloor>a\<rfloor> < 2 ^ 32"
  shows "\<exists>w'. CongestionAvoidance s tcb segmentsAcked = Inr (s, tcb\<lparr>m_cWnd := w'\<rparr>) \<and>
           uint w' = int (unat (m_cWnd tcb)) + \<lfloor>a\<rfloor>"
proof -
  have nz: "to_double (m_cWnd tcb) \<noteq> Finite 0"
    using window by (simp add: to_double_eq_0 word_greater_zero_iff)
  have a1: "1 \<le> a" using adder unfolding OnCongestionAvoidance_adder_def by (rule d_max_1_Finite)
  then have f0: "0 \<le> \<lfloor>a\<rfloor>" by simp
  have f1: "\<lfloor>a\<rfloor> < 2 ^ 32" using rng by linarith
  have conv: "to_uint32 (Finite a) = Inr (word_of_int \<lfloor>a\<rfloor>)"
    using a1 f1 by (intro to_uint32_Inr) (simp_all add: floor_less_iff)
  have code: "d_max (Finite 1)
                (d_add (d_quot (d_add (to_double (m_segmentSize tcb * m_segmentSize tcb))
                                  (d_mul (to_double (m_cWnd tcb)) (m_alpha s)))
                          (to_double (m_cWnd tcb)))
                   (m_alpha s)) = Finite a"
    using adder by (simp add: OnCongestionAvoidance_adder_def to_double_square [OF seg])
      (simp add: to_double_def)
  have run: "CongestionAvoidance s tcb segmentsAcked
               = Inr (s, tcb\<lparr>m_cWnd := m_cWnd tcb + word_of_int \<lfloor>a\<rfloor>\<rparr>)"
    using acked by (simp add: CongestionAvoidance_def double_div_Inr [OF nz] code conv)
  have "uint (m_cWnd tcb + word_of_int \<lfloor>a\<rfloor>) = (uint (m_cWnd tcb) + \<lfloor>a\<rfloor>) mod 2 ^ 32"
    by (simp add: uint_word_ariths uint_word_of_int mod_add_right_eq)
  also have "\<dots> = uint (m_cWnd tcb) + \<lfloor>a\<rfloor>"
    using rng f0 by (intro mod_pos_pos_trivial) simp_all
  finally show ?thesis using run by auto
qed

text \<open>
  C7, as amended. With no segment acknowledged the window stays as it is. With
  \<open>segmentsAcked > 0\<close> and \<open>window > 0\<close>, let \<open>a\<close> be
  \<open>max (1.0, (segmentSize\<^sup>2 + window * alpha) / window + alpha)\<close> computed in the arithmetic
  of \<open>double\<close>, every operation rounded. When the segment size is below \<open>2 ^ 16\<close> (so that
  its square fits 32 bits), \<open>a\<close> is finite and \<open>window + floor a\<close> is below \<open>2 ^ 32\<close>, the
  new window is \<open>window + floor a\<close>.
\<close>

theorem CongestionAvoidance_window:
  "(segmentsAcked = 0 \<longrightarrow> CongestionAvoidance s tcb segmentsAcked = Inr (s, tcb)) \<and>
   (0 < segmentsAcked \<and> 0 < m_cWnd tcb \<and> unat (m_segmentSize tcb) < 2 ^ 16 \<and>
    OnCongestionAvoidance_adder (unat (m_cWnd tcb)) (unat (m_segmentSize tcb)) (m_alpha s)
      = Finite a \<and>
    int (unat (m_cWnd tcb)) + \<lfloor>a\<rfloor> < 2 ^ 32 \<longrightarrow>
    (\<exists>w'. CongestionAvoidance s tcb segmentsAcked = Inr (s, tcb\<lparr>m_cWnd := w'\<rparr>) \<and>
       uint w' = int (unat (m_cWnd tcb)) + \<lfloor>a\<rfloor>))"
proof (intro conjI impI)
  assume "segmentsAcked = 0"
  then show "CongestionAvoidance s tcb segmentsAcked = Inr (s, tcb)"
    by (simp add: CongestionAvoidance_def)
next
  assume "0 < segmentsAcked \<and> 0 < m_cWnd tcb \<and> unat (m_segmentSize tcb) < 2 ^ 16 \<and>
    OnCongestionAvoidance_adder (unat (m_cWnd tcb)) (unat (m_segmentSize tcb)) (m_alpha s)
      = Finite a \<and>
    int (unat (m_cWnd tcb)) + \<lfloor>a\<rfloor> < 2 ^ 32"
  then show "\<exists>w'. CongestionAvoidance s tcb segmentsAcked = Inr (s, tcb\<lparr>m_cWnd := w'\<rparr>) \<and>
       uint w' = int (unat (m_cWnd tcb)) + \<lfloor>a\<rfloor>"
    by (intro CongestionAvoidance_in_range) simp_all
qed

text \<open>
  The scenario of the specification: a window of 10000, segments of 1000, \<open>alpha = 1\<close>
  and one segment acknowledged give \<open>a = 102\<close> and a window of 10102; with none
  acknowledged the window stays at 10000.
\<close>

theorem CongestionAvoidance_window_witness:
  "CongestionAvoidance (example_controller\<lparr>m_alpha := Finite 1\<rparr>) example_tcb 0
     = Inr (example_controller\<lparr>m_alpha := Finite 1\<rparr>, example_tcb) \<and>
   (0::uint32) < 1 \<and> 0 < m_cWnd example_tcb \<and> unat (m_segmentSize example_tcb) < 2 ^ 16 \<and>
   OnCongestionAvoidance_adder (unat (m_cWnd example_tcb)) (unat (m_segmentSize example_tcb))
     (m_alpha (example_controller\<lparr>m_alpha := Finite 1\<rparr>)) = Finite 102 \<and>
   (\<exists>w'. CongestionAvoidance (example_controller\<lparr>m_alpha := Finite 1\<rparr>) example_tcb 1
            = Inr (example_controller\<lparr>m_alpha := Finite 1\<rparr>, example_tcb\<lparr>m_cWnd := w'\<rparr>) \<and>
          uint w' = 10102)"
proof -
  have h: "(0::uint32) < 1" "0 < m_cWnd example_tcb"
      "unat (m_segmentSize example_tcb) < 2 ^ 16"
    by (simp_all add: example_tcb_def)
  have v: "OnCongestionAvoidance_adder (unat (m_cWnd example_tcb))
             (unat (m_segmentSize example_tcb))
             (m_alpha (example_controller\<lparr>m_alpha := Finite 1\<rparr>)) = Finite 102"
    by (simp add: OnCongestionAvoidance_adder_def example_tcb_def rnd_numeral d_max_def)
  have r: "int (unat (m_cWnd example_tcb)) + \<lfloor>102::real\<rfloor> < 2 ^ 32"
    by (simp add: example_tcb_def)
  note t0 = CongestionAvoidance_window
    [of 0 "example_controller\<lparr>m_alpha := Finite 1\<rparr>" example_tcb]
  note t1 = CongestionAvoidance_window
    [of 1 "example_controller\<lparr>m_alpha := Finite 1\<rparr>" example_tcb 102]
  have a: "CongestionAvoidance (example_controller\<lparr>m_alpha := Finite 1\<rparr>) example_tcb 0
             = Inr (example_controller\<lparr>m_alpha := Finite 1\<rparr>, example_tcb)"
    using t0 by blast
  have "\<exists>w'. CongestionAvoidance (example_controller\<lparr>m_alpha := Finite 1\<rparr>) example_tcb 1
            = Inr (example_controller\<lparr>m_alpha := Finite 1\<rparr>, example_tcb\<lparr>m_cWnd := w'\<rparr>) \<and>
          uint w' = int (unat (m_cWnd example_tcb)) + \<lfloor>102::real\<rfloor>"
    using t1 h v r by blast
  then have b: "\<exists>w'. CongestionAvoidance (example_controller\<lparr>m_alpha := Finite 1\<rparr>) example_tcb 1
            = Inr (example_controller\<lparr>m_alpha := Finite 1\<rparr>, example_tcb\<lparr>m_cWnd := w'\<rparr>) \<and>
          uint w' = 10102"
    by (simp add: example_tcb_def)
  show ?thesis using a b h v by blast
qed

text \<open>
  The claim as the specification states it fails where the 32-bit arithmetic wraps and
  where the arithmetic of \<open>double\<close> rounds. With segments of 65536 bytes, a window of 2
  and \<open>alpha = 1\<close> the square is 0 in the source, which computes \<open>(0 + 2) / 2 + 1 = 2\<close>:
  the window becomes 4, where the formula gives 2147483652. With a window of
  \<open>2 ^ 32 - 1\<close>, segments of 1 byte and \<open>alpha = 1\<close> the increment is 2 and the window
  becomes 1, where the formula gives 4294967297. With a window of 73000, segments of 1460
  bytes and \<open>alpha\<close> the \<open>double\<close> \<open>3152519739159347 / 2 ^ 51\<close> (the value of
  \<open>2 * (1 - 0.3)\<close>), the rounded sum is 32 and the window becomes 73032, where the formula
  in exact arithmetic gives 73031.
\<close>

theorem CongestionAvoidance_window_counterexample:
  "CongestionAvoidance (example_controller\<lparr>m_alpha := Finite 1\<rparr>)
     (example_tcb\<lparr>m_cWnd := 2, m_segmentSize := 65536\<rparr>) 1
     = Inr (example_controller\<lparr>m_alpha := Finite 1\<rparr>,
            example_tcb\<lparr>m_cWnd := 4, m_segmentSize := 65536\<rparr>) \<and>
   OnCongestionAvoidance_spec 2 65536 1 1 = 2147483652 \<and>
   CongestionAvoidance (example_controller\<lparr>m_alpha := Finite 1\<rparr>)
     (example_tcb\<lparr>m_cWnd := 4294967295, m_segmentSize := 1\<rparr>) 1
     = Inr (example_controller\<lparr>m_alpha := Finite 1\<rparr>,
            example_tcb\<lparr>m_cWnd := 1, m_segmentSize := 1\<rparr>) \<and>
   OnCongestionAvoidance_spec 4294967295 1 1 1 = 4294967297 \<and>
   CongestionAvoidance
       (example_controller\<lparr>m_alpha := Finite (3152519739159347 / 2251799813685248)\<rparr>)
       (example_tcb\<lparr>m_cWnd := 73000, m_segmentSize := 1460\<rparr>) 1
     = Inr (example_controller\<lparr>m_alpha := Finite (3152519739159347 / 2251799813685248)\<rparr>,
            example_tcb\<lparr>m_cWnd := 73032, m_segmentSize := 1460\<rparr>) \<and>
   OnCongestionAvoidance_spec 73000 1460 1 (3152519739159347 / 2251799813685248) = 73031"
proof (intro conjI)
  show "CongestionAvoidance (example_controller\<lparr>m_alpha := Finite 1\<rparr>)
     (example_tcb\<lparr>m_cWnd := 2, m_segmentSize := 65536\<rparr>) 1
     = Inr (example_controller\<lparr>m_alpha := Finite 1\<rparr>,
            example_tcb\<lparr>m_cWnd := 4, m_segmentSize := 65536\<rparr>)"
    by (simp add: CongestionAvoidance_def example_tcb_def double_div_def to_double_def
        rnd_numeral d_max_def to_uint32_numeral)
  show "OnCongestionAvoidance_spec 2 65536 1 1 = 2147483652"
    by (simp add: OnCongestionAvoidance_spec_def)
  show "OnCongestionAvoidance_spec 4294967295 1 1 1 = 4294967297"
    by (simp add: OnCongestionAvoidance_spec_def)
  show "OnCongestionAvoidance_spec 73000 1460 1 (3152519739159347 / 2251799813685248) = 73031"
    by (simp add: OnCongestionAvoidance_spec_def)
  show "CongestionAvoidance (example_controller\<lparr>m_alpha := Finite 1\<rparr>)
     (example_tcb\<lparr>m_cWnd := 4294967295, m_segmentSize := 1\<rparr>) 1
     = Inr (example_controller\<lparr>m_alpha := Finite 1\<rparr>,
            example_tcb\<lparr>m_cWnd := 1, m_segmentSize := 1\<rparr>)"
  proof -
    have q: "rnd (4294967296 / 4294967295)
               = Finite (of_int (rne ((4294967296 / 4294967295) / 2 powi (0 - 52))) * 2 powi (0 - 52))"
      by (rule rnd_eval) simp_all
    have q': "rnd (4294967296 / 4294967295) = Finite (4294967297 / 4294967296)"
      unfolding q by (simp add: rne_def power_int_minus)
    have t': "rnd (8589934593 / 4294967296) = Finite (8589934593 / 4294967296)"
      using rnd_dyadic [of 8589934593 32] by simp
    have c: "to_uint32 (Finite (8589934593 / 4294967296)) = Inr 2"
      using to_uint32_Inr [of "8589934593 / 4294967296"] by simp
    show ?thesis
      by (simp add: CongestionAvoidance_def example_tcb_def double_div_def to_double_def
          rnd_numeral d_max_def q' t' c)
  qed
  show "CongestionAvoidance
       (example_controller\<lparr>m_alpha := Finite (3152519739159347 / 2251799813685248)\<rparr>)
       (example_tcb\<lparr>m_cWnd := 73000, m_segmentSize := 1460\<rparr>) 1
     = Inr (example_controller\<lparr>m_alpha := Finite (3152519739159347 / 2251799813685248)\<rparr>,
            example_tcb\<lparr>m_cWnd := 73032, m_segmentSize := 1460\<rparr>)"
  proof -
    have m: "rnd (73000 * (3152519739159347 / 2251799813685248))
               = Finite (of_int (rne ((73000 * (3152519739159347 / 2251799813685248)) / 2 powi (16 - 52))) * 2 powi (16 - 52))"
      by (rule rnd_eval) simp_all
    have m': "rnd (73000 * (3152519739159347 / 2251799813685248)) = Finite 102200"
      unfolding m by (simp add: rne_def power_int_minus)
    have q: "rnd (2233800 / 73000)
               = Finite (of_int (rne ((2233800 / 73000) / 2 powi (4 - 52))) * 2 powi (4 - 52))"
      by (rule rnd_eval) simp_all
    have q': "rnd (2233800 / 73000) = Finite (4306567143673037 / 140737488355328)"
      unfolding q by (simp add: rne_def power_int_minus)
    have t: "rnd (4306567143673037 / 140737488355328 + 3152519739159347 / 2251799813685248)
               = Finite (of_int (rne ((4306567143673037 / 140737488355328 + 3152519739159347 / 2251799813685248) / 2 powi (5 - 52))) * 2 powi (5 - 52))"
      by (rule rnd_eval) simp_all
    have t': "rnd (4306567143673037 / 140737488355328 + 3152519739159347 / 2251799813685248)
                = Finite 32"
      unfolding t by (simp add: rne_def power_int_minus)
    show ?thesis
      using m' q' t'
      by (simp add: CongestionAvoidance_def example_tcb_def double_div_def to_double_def
          rnd_numeral d_max_def to_uint32_numeral)
  qed
qed

text \<open>
  C9. A call of \<open>CongestionAvoidance\<close> that returns leaves every member of the controller
  as it was; in the socket state only the window can differ.
\<close>

theorem CongestionAvoidance_frame:
  "CongestionAvoidance s tcb segmentsAcked = Inr (s', tcb') \<Longrightarrow>
   s' = s \<and> m_ssThresh tcb' = m_ssThresh tcb \<and> m_segmentSize tcb' = m_segmentSize tcb
     \<and> m_congState tcb' = m_congState tcb"
  by (auto simp: CongestionAvoidance_def split: if_splits sum.splits)

theorem CongestionAvoidance_frame_witness:
  "CongestionAvoidance (example_controller\<lparr>m_alpha := Finite 1\<rparr>) example_tcb 1
     = Inr (example_controller\<lparr>m_alpha := Finite 1\<rparr>, example_tcb\<lparr>m_cWnd := 10102\<rparr>) \<and>
   m_ssThresh (example_tcb\<lparr>m_cWnd := 10102\<rparr>) = m_ssThresh example_tcb \<and>
   m_segmentSize (example_tcb\<lparr>m_cWnd := 10102\<rparr>) = m_segmentSize example_tcb \<and>
   m_congState (example_tcb\<lparr>m_cWnd := 10102\<rparr>) = m_congState example_tcb"
proof -
  have run: "CongestionAvoidance (example_controller\<lparr>m_alpha := Finite 1\<rparr>) example_tcb 1
     = Inr (example_controller\<lparr>m_alpha := Finite 1\<rparr>, example_tcb\<lparr>m_cWnd := 10102\<rparr>)"
    by (simp add: CongestionAvoidance_def example_tcb_def double_div_def to_double_def
        rnd_numeral d_max_def to_uint32_numeral)
  from CongestionAvoidance_frame [OF run] run show ?thesis by blast
qed

text \<open>
  C10. With \<open>segmentsAcked > 0\<close> the division of line 107 is by the window: a call ends
  in the division by zero exactly when a segment is acknowledged and the window is
  zero, and never with a positive window.
\<close>

theorem CongestionAvoidance_division:
  "(CongestionAvoidance s tcb segmentsAcked = Inl DivisionByZero)
     = (0 < segmentsAcked \<and> m_cWnd tcb = 0)"
proof (cases "to_uint32 (d_max (Finite 1)
                (d_add (d_quot (d_add (to_double (m_segmentSize tcb * m_segmentSize tcb))
                                  (d_mul (to_double (m_cWnd tcb)) (m_alpha s)))
                          (to_double (m_cWnd tcb)))
                   (m_alpha s)))")
  case (Inl e)
  have "e = ConversionOutOfRange"
    using Inl by (cases "d_max (Finite 1)
                (d_add (d_quot (d_add (to_double (m_segmentSize tcb * m_segmentSize tcb))
                                  (d_mul (to_double (m_cWnd tcb)) (m_alpha s)))
                          (to_double (m_cWnd tcb)))
                   (m_alpha s))") (auto simp add: to_uint32.simps split: if_splits)
  then show ?thesis
    using Inl by (auto simp: CongestionAvoidance_def double_div_def to_double_eq_0)
next
  case (Inr w)
  then show ?thesis
    by (auto simp: CongestionAvoidance_def double_div_def to_double_eq_0)
qed

theorem CongestionAvoidance_division_witness:
  "(0::uint32) < 1 \<and>
   CongestionAvoidance example_controller (example_tcb\<lparr>m_cWnd := 0\<rparr>) 1 = Inl DivisionByZero \<and>
   CongestionAvoidance example_controller example_tcb 1 \<noteq> Inl DivisionByZero"
proof -
  have h: "(0::uint32) < 1" by simp
  have z: "m_cWnd (example_tcb\<lparr>m_cWnd := 0\<rparr>) = 0" by simp
  have p: "m_cWnd example_tcb \<noteq> 0" by (simp add: example_tcb_def)
  from CongestionAvoidance_division [of example_controller "example_tcb\<lparr>m_cWnd := 0\<rparr>" 1] h z
  have a: "CongestionAvoidance example_controller (example_tcb\<lparr>m_cWnd := 0\<rparr>) 1
             = Inl DivisionByZero"
    by blast
  from CongestionAvoidance_division [of example_controller example_tcb 1] p
  have b: "CongestionAvoidance example_controller example_tcb 1 \<noteq> Inl DivisionByZero"
    by blast
  show ?thesis using h a b by blast
qed


section \<open>UpdateAlpha\<close>

lemma UpdateAlpha_fields:
  "m_beta (UpdateAlpha now s) = m_beta s"
  "m_defaultBackoff (UpdateAlpha now s) = m_defaultBackoff s"
  "m_throughputRatio (UpdateAlpha now s) = m_throughputRatio s"
  "m_delta (UpdateAlpha now s) = now - m_lastCon s"
  "m_deltaL (UpdateAlpha now s) = m_deltaL s"
  "m_lastCon (UpdateAlpha now s) = m_lastCon s"
  "m_minRtt (UpdateAlpha now s) = m_minRtt s"
  "m_maxRtt (UpdateAlpha now s) = m_maxRtt s"
  "m_throughput (UpdateAlpha now s) = m_throughput s"
  "m_lastThroughput (UpdateAlpha now s) = m_lastThroughput s"
  "m_dataSent (UpdateAlpha now s) = m_dataSent s"
  by (simp_all add: UpdateAlpha_def Let_def)

lemma UpdateAlpha_eq_spec:
  "UpdateAlpha now s
     = s\<lparr>m_delta := now - m_lastCon s, m_alpha := UpdateAlpha_spec literal_2_71828 now s\<rparr>"
  by (simp add: UpdateAlpha_def UpdateAlpha_spec_def Let_def d_max_def)

lemma scale_within_reference:
  assumes "0 \<le> b" "b \<le> 1"
  shows "d_mul (d_mul (Finite 2) (d_sub (Finite 1) (Finite b))) (Finite 1)
           = Finite (2 * round53 (1 - b))"
proof -
  have "rnd (1 - b) = Finite (round53 (1 - b)) \<and> 0 \<le> round53 (1 - b) \<and> round53 (1 - b) \<le> 1"
    using assms by (intro rnd_between) simp_all
  then have r: "rnd (1 - b) = Finite (round53 (1 - b))" "0 \<le> round53 (1 - b)"
    "round53 (1 - b) \<le> 1"
    by simp_all
  have t: "round53 2 = 2" by (simp add: round53_num)
  have h: "(2::real) < huge" using pow2_less_huge [of 1] by simp
  have "rnd (2 * round53 (1 - b)) = Finite (round53 (2 * round53 (1 - b))) \<and>
        0 \<le> round53 (2 * round53 (1 - b)) \<and> round53 (2 * round53 (1 - b)) \<le> 2"
    using r h t by (intro rnd_between) simp_all
  then have "rnd (2 * round53 (1 - b)) = Finite (2 * round53 (1 - b))"
    by (simp add: round53_twice)
  then show ?thesis by (simp add: d_sub_def r(1))
qed

text \<open>
  C5, as amended. \<open>UpdateAlpha\<close> stores \<open>delta = now - lastCon\<close> and the value of the
  formula of the specification, computed in the arithmetic of \<open>double\<close> with the base
  of the power the \<open>double\<close> 2.71828 and not the base of the natural exponential; the
  last step is \<open>max (alpha, 1.0)\<close> of \<open>double\<close>, which keeps a NaN. In particular, for
  \<open>delta \<le> deltaL\<close> and \<open>beta\<close> from 0 to 1 it yields \<open>max (1, 2 * r)\<close> with \<open>r\<close> the
  rounded difference \<open>1 - beta\<close>.
\<close>

theorem UpdateAlpha_formula:
  "UpdateAlpha now s
     = s\<lparr>m_delta := now - m_lastCon s, m_alpha := UpdateAlpha_spec literal_2_71828 now s\<rparr> \<and>
   (now - m_lastCon s \<le> m_deltaL s \<and> m_beta s = Finite b \<and> 0 \<le> b \<and> b \<le> 1 \<longrightarrow>
      m_alpha (UpdateAlpha now s) = Finite (max 1 (2 * round53 (1 - b))))"
proof (intro conjI impI)
  show "UpdateAlpha now s
     = s\<lparr>m_delta := now - m_lastCon s, m_alpha := UpdateAlpha_spec literal_2_71828 now s\<rparr>"
    by (rule UpdateAlpha_eq_spec)
next
  assume a: "now - m_lastCon s \<le> m_deltaL s \<and> m_beta s = Finite b \<and> 0 \<le> b \<and> b \<le> 1"
  then have "d_mul (d_mul (Finite 2) (d_sub (Finite 1) (m_beta s))) (Finite 1)
               = Finite (2 * round53 (1 - b))"
    by (simp add: scale_within_reference)
  then show "m_alpha (UpdateAlpha now s) = Finite (max 1 (2 * round53 (1 - b)))"
    using a by (simp add: UpdateAlpha_def Let_def max_def)
qed

text \<open>Half a second after construction: \<open>delta \<le> deltaL\<close>, \<open>beta = 0\<close>, so \<open>alpha = 2\<close>.\<close>

theorem UpdateAlpha_formula_witness:
  "500000000 - m_lastCon example_controller \<le> m_deltaL example_controller \<and>
   m_beta example_controller = Finite 0 \<and> (0::real) \<le> 0 \<and> (0::real) \<le> 1 \<and>
   UpdateAlpha 500000000 example_controller
     = example_controller\<lparr>m_delta := 500000000, m_alpha := Finite 2\<rparr> \<and>
   UpdateAlpha_spec literal_2_71828 500000000 example_controller = Finite 2 \<and>
   m_alpha (UpdateAlpha 500000000 example_controller) = Finite 2"
proof -
  have h: "500000000 - m_lastCon example_controller \<le> m_deltaL example_controller"
      "m_beta example_controller = Finite 0"
    by (simp_all add: example_controller_def TcpShtcp_new_def)
  have l: "m_lastCon example_controller = 0"
    by (simp add: example_controller_def TcpShtcp_new_def)
  have v: "UpdateAlpha_spec literal_2_71828 500000000 example_controller = Finite 2"
    using h by (simp add: UpdateAlpha_spec_def Let_def l d_sub_def rnd_numeral d_max_def)
  note t = UpdateAlpha_formula [of 500000000 example_controller 0]
  from t have "UpdateAlpha 500000000 example_controller
     = example_controller\<lparr>m_delta := 500000000 - m_lastCon example_controller,
         m_alpha := UpdateAlpha_spec literal_2_71828 500000000 example_controller\<rparr>"
    by blast
  then have a: "UpdateAlpha 500000000 example_controller
     = example_controller\<lparr>m_delta := 500000000, m_alpha := Finite 2\<rparr>"
    by (simp add: v l)
  have c: "500000000 - m_lastCon example_controller \<le> m_deltaL example_controller \<and>
      m_beta example_controller = Finite 0 \<and> (0::real) \<le> 0 \<and> (0::real) \<le> 1"
    using h by simp
  from t c have "m_alpha (UpdateAlpha 500000000 example_controller)
                   = Finite (max 1 (2 * round53 (1 - 0)))"
    by blast
  then have b: "m_alpha (UpdateAlpha 500000000 example_controller) = Finite 2" by simp
  show ?thesis using h v a b by simp
qed

text \<open>
  The claim as the specification states it fails for the base. With \<open>minRtt\<close> 0.7 s,
  \<open>deltaL\<close> 1 s, \<open>beta = 0.5\<close> and 25.25 s after the last congestion event the exponent
  is \<open>(353.5 - 3.5) / 350 = 1\<close> and the polynomial is 390.515625: the source stores the
  \<open>double\<close> nearest to \<open>2.71828 * 390.515625\<close>, about 1061.53081, where the formula with
  the base of the natural exponential gives about 1061.53153, in the arithmetic of
  \<open>double\<close> and in exact arithmetic.
\<close>

theorem UpdateAlpha_formula_counterexample:
  "m_alpha (UpdateAlpha 25250000000
             (example_controller\<lparr>m_beta := Finite (1/2), m_minRtt := 700000000\<rparr>))
     = Finite (4668661889093799 / 4398046511104) \<and>
   UpdateAlpha_spec (exp 1) 25250000000
       (example_controller\<lparr>m_beta := Finite (1/2), m_minRtt := 700000000\<rparr>)
     \<noteq> Finite (4668661889093799 / 4398046511104) \<and>
   (4668661889093799 / 4398046511104 :: real)
     < max 1 (2 * (1 - 1/2) * (exp 1 powr ((14 * (101/4) - 5 * (7/10)) / 350)
                               * (1 + 10 * (97/4) + 1/4 * (97/4)\<^sup>2)))"
proof -
  let ?s = "example_controller\<lparr>m_beta := Finite (1/2), m_minRtt := 700000000\<rparr>"
  note f = example_controller_fields
  have e1: "GetSeconds 25250000000 = Finite (101/4)"
    using round53_exact [of 101 "- 2"] by (simp add: GetSeconds_def power_int_minus)
  have e2: "GetSeconds 700000000 = Finite (3152519739159347 / 4503599627370496)"
  proof -
    have "round53 (7/10) = of_int (rne ((7/10) / 2 powi (- 1 - 52))) * 2 powi (- 1 - 52)"
      by (rule round53_eval) (simp_all add: power_int_minus)
    also have "\<dots> = 3152519739159347 / 4503599627370496"
      by (simp add: rne_def power_int_minus)
    finally show ?thesis by (simp add: GetSeconds_def)
  qed
  have e3: "GetSeconds 24250000000 = Finite (97/4)"
    using round53_exact [of 97 "- 2"] by (simp add: GetSeconds_def power_int_minus)
  have e4: "d_mul (Finite 14) (Finite (101/4)) = Finite (707/2)"
    using rnd_dyadic [of 707 1] by simp
  have e5: "d_mul (Finite 5) (Finite (3152519739159347 / 4503599627370496)) = Finite (7/2)"
  proof -
    have "rnd (5 * (3152519739159347 / 4503599627370496))
            = Finite (of_int (rne ((5 * (3152519739159347 / 4503599627370496)) / 2 powi (1 - 52)))
                * 2 powi (1 - 52))"
      by (rule rnd_eval) simp_all
    also have "\<dots> = Finite (7/2)" by (simp add: rne_def power_int_minus)
    finally show ?thesis by simp
  qed
  have e6: "d_sub (Finite (707/2)) (Finite (7/2)) = Finite 350"
    by (simp add: d_sub_def rnd_numeral)
  have e7: "d_quot (Finite 350) (Finite 350) = Finite 1" by simp
  have e9: "d_mul (Finite 10) (Finite (97/4)) = Finite (485/2)"
    using rnd_dyadic [of 485 1] by simp
  have e10: "d_add (Finite 1) (Finite (485/2)) = Finite (487/2)"
    using rnd_dyadic [of 487 1] by simp
  have e11: "d_mul (Finite (97/4)) (Finite (97/4)) = Finite (9409/16)"
    using rnd_dyadic [of 9409 4] by simp
  have e12: "d_mul (Finite (1/4)) (Finite (9409/16)) = Finite (9409/64)"
    using rnd_dyadic [of 9409 6] by simp
  have e13: "d_add (Finite (487/2)) (Finite (9409/64)) = Finite (24993/64)"
    using rnd_dyadic [of 24993 6] by simp
  have e14: "d_mul (Finite literal_2_71828) (Finite (24993/64))
               = Finite (4668661889093799 / 4398046511104)"
  proof -
    have "rnd (382563899846521 / 140737488355328 * (24993/64))
            = Finite (of_int (rne ((382563899846521 / 140737488355328 * (24993/64))
                / 2 powi (10 - 52))) * 2 powi (10 - 52))"
      by (rule rnd_eval) simp_all
    also have "\<dots> = Finite (4668661889093799 / 4398046511104)"
      by (simp add: rne_def power_int_minus)
    finally show ?thesis by (simp add: literal_value)
  qed
  have e15: "d_sub (Finite 1) (Finite (1/2)) = Finite (1/2)"
    using rnd_dyadic [of 1 1] by (simp add: d_sub_def)
  have e16: "d_mul (Finite 2) (Finite (1/2)) = Finite 1" by simp
  have e17: "d_mul (Finite 1) (Finite (4668661889093799 / 4398046511104))
               = Finite (4668661889093799 / 4398046511104)"
    using rnd_dyadic [of 4668661889093799 42] by simp
  have code: "m_alpha (UpdateAlpha 25250000000 ?s) = Finite (4668661889093799 / 4398046511104)"
    by (simp add: UpdateAlpha_def Let_def f e1 e2 e3 e4 e5 e6 e7 d_pow_one e9 e10 e11 e12 e13
        e14 e15 e16 e17
        del: d_mul.simps d_add.simps d_quot.simps d_pow.simps)
  have c: "2850325 / 1048576 \<le> round53 (exp 1)"
  proof -
    have "round53 (of_int 2850325 * 2 powi (- 20)) \<le> round53 (exp 1)"
      using e_lower by (intro round53_mono) (simp add: power_int_minus)
    moreover have "round53 (of_int 2850325 * 2 powi (- 20)) = of_int 2850325 * 2 powi (- 20)"
      by (rule round53_exact) simp_all
    ultimately show ?thesis by (simp add: power_int_minus)
  qed
  have real: "(4668661889093799 / 4398046511104 :: real) < exp 1 * (24993 / 64)"
  proof -
    have "(4668661889093799 / 4398046511104 :: real) < 2850325 / 1048576 * (24993 / 64)"
      by simp
    also have "\<dots> < exp 1 * (24993 / 64)"
      using e_lower by (intro mult_strict_right_mono) simp_all
    finally show ?thesis .
  qed
  have spec: "UpdateAlpha_spec (exp 1) 25250000000 ?s
                \<noteq> Finite (4668661889093799 / 4398046511104)"
  proof
    assume a: "UpdateAlpha_spec (exp 1) 25250000000 ?s
                 = Finite (4668661889093799 / 4398046511104)"
    have p: "d_pow (exp 1) (Finite 1) = rnd (exp 1)" by simp
    have "exp (1::real) \<le> 3" using exp_le by simp
    then have "rnd (exp 1) = Finite (round53 (exp 1)) \<and> 0 \<le> round53 (exp 1) \<and>
        round53 (exp 1) \<le> 3"
      using pow2_less_huge [of 2] by (intro rnd_between) (simp_all add: round53_num)
    then have p': "d_pow (exp 1) (Finite 1) = Finite (round53 (exp 1))" using p by simp
    have sp: "UpdateAlpha_spec (exp 1) 25250000000 ?s
            = d_max (d_mul (Finite 1) (d_mul (Finite (round53 (exp 1))) (Finite (24993/64))))
                (Finite 1)"
      by (simp add: UpdateAlpha_spec_def Let_def f e1 e2 e3 e4 e5 e6 e7 p' e9 e10 e11 e12 e13
          e15 e16
          del: d_mul.simps d_add.simps d_quot.simps d_pow.simps)
    have "\<exists>v. d_mul (Finite (round53 (exp 1))) (Finite (24993/64)) = Finite v \<and>
        71238172725 / 67108864 \<le> v"
    proof -
      have g: "round53 (71238172725 / 67108864) = 71238172725 / 67108864"
        using round53_exact [of 71238172725 "- 26"] by (simp add: power_int_minus)
      have u: "round53 (exp 1) \<le> 3"
        using \<open>rnd (exp 1) = Finite (round53 (exp 1)) \<and> 0 \<le> round53 (exp 1) \<and>
          round53 (exp 1) \<le> 3\<close> by simp
      have l: "71238172725 / 67108864 \<le> round53 (exp 1) * (24993/64)"
        using c by simp
      have h: "round53 (exp 1) * (24993/64) \<le> 2048" using u by simp
      have "rnd (round53 (exp 1) * (24993/64))
              = Finite (round53 (round53 (exp 1) * (24993/64))) \<and>
            71238172725 / 67108864 \<le> round53 (round53 (exp 1) * (24993/64)) \<and>
            round53 (round53 (exp 1) * (24993/64)) \<le> 2048"
        using g l h pow2_less_huge [of 11] huge_pos
        by (intro rnd_between) (simp_all add: round53_num)
      then show ?thesis by simp
    qed
    then obtain v where v: "d_mul (Finite (round53 (exp 1))) (Finite (24993/64)) = Finite v"
      "71238172725 / 67108864 \<le> v"
      by blast
    have "rnd v = Finite v" using v(1) by (simp add: rnd_idem)
    then have "d_mul (Finite 1) (Finite v) = Finite v" by simp
    moreover have "d_max (Finite v) (Finite 1) = Finite v"
      using v(2) by (simp add: d_max_def)
    ultimately have "UpdateAlpha_spec (exp 1) 25250000000 ?s = Finite v"
      by (simp only: sp v(1))
    then have "v = 4668661889093799 / 4398046511104" using a by simp
    then show False using v(2) by simp
  qed
  have "(4668661889093799 / 4398046511104 :: real)
     < max 1 (2 * (1 - 1/2) * (exp 1 powr ((14 * (101/4) - 5 * (7/10)) / 350)
                               * (1 + 10 * (97/4) + 1/4 * (97/4)\<^sup>2)))"
    using real by (simp add: power2_eq_square max_def)
  then show ?thesis using code spec by blast
qed


section \<open>UpdateBeta\<close>

lemma round53_int_eq_0: "round53 (of_int n) = 0 \<longleftrightarrow> n = 0"
proof
  assume z: "round53 (of_int n) = 0"
  show "n = 0"
  proof (rule ccontr)
    assume "n \<noteq> 0"
    then consider "1 \<le> n" | "n \<le> - 1" by linarith
    then show False
    proof cases
      case 1
      then have "round53 1 \<le> round53 (of_int n)" by (intro round53_mono) simp
      then show False using z by simp
    next
      case 2
      then have "round53 (of_int n) \<le> round53 (- 1)" by (intro round53_mono) simp
      then show False using z by (simp add: round53_minus)
    qed
  qed
qed simp

lemma GetDouble_eq_0: "GetDouble t = Finite 0 \<longleftrightarrow> t = 0"
  by (simp add: GetDouble_def round53_int_eq_0)





section \<open>The invariant of the reachable states\<close>

lemma PktsAcked_dataSent_fields:
  "m_alpha (PktsAcked_dataSent s tcb k) = m_alpha s"
  "m_beta (PktsAcked_dataSent s tcb k) = m_beta s"
  "m_defaultBackoff (PktsAcked_dataSent s tcb k) = m_defaultBackoff s"
  "m_throughputRatio (PktsAcked_dataSent s tcb k) = m_throughputRatio s"
  "m_delta (PktsAcked_dataSent s tcb k) = m_delta s"
  "m_deltaL (PktsAcked_dataSent s tcb k) = m_deltaL s"
  "m_lastCon (PktsAcked_dataSent s tcb k) = m_lastCon s"
  "m_minRtt (PktsAcked_dataSent s tcb k) = m_minRtt s"
  "m_maxRtt (PktsAcked_dataSent s tcb k) = m_maxRtt s"
  "m_throughput (PktsAcked_dataSent s tcb k) = m_throughput s"
  "m_lastThroughput (PktsAcked_dataSent s tcb k) = m_lastThroughput s"
  by (simp_all add: PktsAcked_dataSent_def)

lemma PktsAcked_rest_fields:
  "m_beta (PktsAcked_rest s now rtt thr) = m_beta s"
  "m_defaultBackoff (PktsAcked_rest s now rtt thr) = m_defaultBackoff s"
  "m_throughputRatio (PktsAcked_rest s now rtt thr) = m_throughputRatio s"
  "m_delta (PktsAcked_rest s now rtt thr) = now - m_lastCon s"
  "m_deltaL (PktsAcked_rest s now rtt thr) = m_deltaL s"
  "m_lastCon (PktsAcked_rest s now rtt thr) = m_lastCon s"
  "m_minRtt (PktsAcked_rest s now rtt thr) = min rtt (m_minRtt s)"
  "m_maxRtt (PktsAcked_rest s now rtt thr) = max rtt (m_maxRtt s)"
  "m_throughput (PktsAcked_rest s now rtt thr) = thr"
  "m_lastThroughput (PktsAcked_rest s now rtt thr) = m_lastThroughput s"
  "m_dataSent (PktsAcked_rest s now rtt thr) = m_dataSent s"
  by (simp_all add: PktsAcked_rest_def Let_def UpdateAlpha_fields)

lemma PktsAcked_Inr_rest:
  "PktsAcked s now tcb k rtt = Inr s' \<Longrightarrow>
   \<exists>thr. s' = PktsAcked_rest (PktsAcked_dataSent s tcb k) now rtt thr"
  by (auto simp add: PktsAcked_def Let_def split: sum.splits)

lemma CongestionAvoidance_state:
  "CongestionAvoidance s tcb segmentsAcked = Inr (s', tcb') \<Longrightarrow> s' = s"
  by (auto simp: CongestionAvoidance_def split: if_splits sum.splits)

lemma Time_bounds: "0 < Time_Max" "Time_Min \<le> Time_Max" "Time_Min < 0"
  by (simp_all add: Time_Max_def Time_Min_def)

lemma epoch_inv_constructed:
  "0 \<le> d \<Longrightarrow> d \<le> 1 \<Longrightarrow> epoch_inv (TcpShtcp_new (Finite d) r deltaL) 0"
  using Time_bounds by (simp add: epoch_inv_def TcpShtcp_new_def)

lemma epoch_inv_rest:
  assumes "epoch_inv s t" "t \<le> now" "now \<le> Time_Max" "0 < rtt" "rtt \<le> Time_Max"
  shows "epoch_inv (PktsAcked_rest (PktsAcked_dataSent s tcb k) now rtt thr) now"
  using assms
  by (auto simp add: epoch_inv_def PktsAcked_rest_fields PktsAcked_dataSent_fields)

text \<open>Times in seconds and in nanoseconds.\<close>

lemma GetSeconds_range:
  assumes "0 \<le> t" "t \<le> Time_Max"
  shows "\<exists>g. GetSeconds t = Finite g \<and> 0 \<le> g \<and> g \<le> 2 ^ 34"
proof -
  have "real_of_int t \<le> real_of_int Time_Max" using assms(2) by (simp only: of_int_le_iff)
  then have "real_of_int t / 1000000000 \<le> 2 ^ 34" by (simp add: Time_Max_def)
  then have "round53 (real_of_int t / 1000000000) \<le> round53 (2 ^ 34)" by (rule round53_mono)
  moreover have "round53 (2 ^ 34) = 2 ^ 34" using round53_pow2 [of 34] by simp
  moreover have "0 \<le> round53 (real_of_int t / 1000000000)"
    using assms(1) by (intro round53_nonneg) simp
  ultimately show ?thesis by (simp add: GetSeconds_def)
qed

lemma GetDouble_range:
  assumes "0 < t" "t \<le> Time_Max"
  shows "\<exists>g. GetDouble t = Finite g \<and> 1 \<le> g \<and> g \<le> 2 ^ 63"
proof -
  have "real_of_int t \<le> real_of_int Time_Max" using assms(2) by (simp only: of_int_le_iff)
  then have "real_of_int t \<le> 2 ^ 63" by (simp add: Time_Max_def)
  then have "round53 (real_of_int t) \<le> round53 (2 ^ 63)" by (rule round53_mono)
  moreover have "round53 (2 ^ 63) = 2 ^ 63" using round53_pow2 [of 63] by simp
  moreover have "round53 1 \<le> round53 (real_of_int t)"
    using assms(1) by (intro round53_mono) simp
  ultimately show ?thesis by (simp add: GetDouble_def)
qed

lemma GetDouble_mono: "t \<le> u \<Longrightarrow> GetDouble t = Finite a \<Longrightarrow> GetDouble u = Finite c \<Longrightarrow> a \<le> c"
  by (auto simp add: GetDouble_def intro: round53_mono)

text \<open>The value that replaces \<open>beta\<close> is a finite value from 0 to 1.\<close>

lemma decay_exponent:
  assumes "0 \<le> d" "d \<le> Time_Max"
  shows "\<exists>y. d_quot (d_neg (GetSeconds d)) (Finite 25) = Finite y \<and> y \<le> 0"
proof -
  obtain g where g: "GetSeconds d = Finite g" "0 \<le> g" "g \<le> 2 ^ 34"
    using GetSeconds_range [OF assms] by blast
  have a: "round53 (- (2 ^ 34)) = - (2 ^ 34)"
    using round53_pow2 [of 34] by (simp add: round53_minus)
  have h: "- huge < - (2 ^ 34)" using pow2_less_huge [of 34] by simp
  have "rnd (- g / 25) = Finite (round53 (- g / 25)) \<and> - (2 ^ 34) \<le> round53 (- g / 25) \<and>
        round53 (- g / 25) \<le> 0"
    using a h g(2,3) by (intro rnd_between) simp_all
  then show ?thesis by (simp add: g(1))
qed

lemma rtt_ratio:
  assumes "0 < mn" "mn \<le> mx" "mx \<le> Time_Max"
  shows "\<exists>r. d_quot (GetDouble mn) (GetDouble mx) = Finite r \<and> 0 \<le> r \<and> r \<le> 1 \<and>
           2 powi (- 63) \<le> r"
proof -
  have mx: "0 < mx" using assms by simp
  have mn: "mn \<le> Time_Max" using assms by simp
  obtain a where a: "GetDouble mn = Finite a" "1 \<le> a" "a \<le> 2 ^ 63"
    using GetDouble_range [OF assms(1) mn] by blast
  obtain c where c: "GetDouble mx = Finite c" "1 \<le> c" "c \<le> 2 ^ 63"
    using GetDouble_range [OF mx assms(3)] by blast
  have ac: "a \<le> c" using GetDouble_mono [OF assms(2) a(1) c(1)] .
  have u: "a / c \<le> 1" using ac c(2) by simp
  have "1 / 2 ^ 63 \<le> 1 / c" using c(2,3) by (intro divide_left_mono) simp_all
  also have "\<dots> \<le> a / c" using a(2) c(2) by (intro divide_right_mono) simp_all
  finally have "1 / 2 ^ 63 \<le> a / c" .
  then have l: "2 powi (- 63) \<le> a / c" by (simp only: inv_pow2 of_nat_numeral)
  have g: "round53 (2 powi (- 63)) = 2 powi (- 63)" by (rule round53_pow2) simp
  have hl: "- huge < 2 powi (- 63)" using huge_pos pow2_pos [of "- 63"] by linarith
  have "rnd (a / c) = Finite (round53 (a / c)) \<and> 2 powi (- 63) \<le> round53 (a / c) \<and>
        round53 (a / c) \<le> 1"
    by (rule rnd_between [OF g round53_numeral(2) l u hl one_less_huge])
  moreover have "(0::real) \<le> 2 powi (- 63)" by simp
  ultimately have "rnd (a / c) = Finite (round53 (a / c)) \<and> 0 \<le> round53 (a / c) \<and>
      round53 (a / c) \<le> 1 \<and> 2 powi (- 63) \<le> round53 (a / c)"
    by linarith
  then show ?thesis by (simp only: a(1) c(1) d_quot.simps) blast
qed

lemma UpdateBeta_value_range:
  assumes "0 \<le> m_delta s" "m_delta s \<le> Time_Max"
    "0 < m_minRtt s" "m_minRtt s \<le> m_maxRtt s" "m_maxRtt s \<le> Time_Max"
  shows "\<exists>b. UpdateBeta_value literal_2_71828 s = Finite b \<and> 0 \<le> b \<and> b \<le> 1"
proof -
  obtain y where y: "d_quot (d_neg (GetSeconds (m_delta s))) (Finite 25) = Finite y" "y \<le> 0"
    using decay_exponent [OF assms(1,2)] by blast
  obtain p where p: "d_pow literal_2_71828 (Finite y) = Finite p" "0 \<le> p" "p \<le> 1"
    using d_pow_decay [OF y(2)] by blast
  obtain r where r: "d_quot (GetDouble (m_minRtt s)) (GetDouble (m_maxRtt s)) = Finite r"
      "0 \<le> r" "r \<le> 1"
    using rtt_ratio [OF assms(3-5)] by blast
  have "p * r \<le> 1 * 1" using p(2,3) r(2,3) by (intro mult_mono) simp_all
  then have "\<exists>b. rnd (p * r) = Finite b \<and> 0 \<le> b \<and> b \<le> 1"
    using p(2) r(2) by (intro rnd_unit) simp_all
  then show ?thesis by (simp add: UpdateBeta_value_def y(1) p(1) r(1) del: d_pow.simps)
qed

lemma UpdateBeta_fields:
  assumes "UpdateBeta s = Inr s1"
  shows "s1 = s\<lparr>m_beta := m_beta s1\<rparr>"
  using assms by (auto simp: UpdateBeta_def Let_def split: if_splits sum.splits)

lemma UpdateBeta_defined:
  assumes "epoch_inv s t"
  shows "\<exists>b. UpdateBeta (s\<lparr>m_lastCon := now\<rparr>) = Inr (s\<lparr>m_lastCon := now, m_beta := Finite b\<rparr>) \<and>
           0 \<le> b \<and> b \<le> 1"
proof (cases "m_lastThroughput s < m_throughput s \<and> 0 < m_lastThroughput s \<and>
    d_le (to_double ((m_throughput s - m_lastThroughput s) div m_lastThroughput s))
      (m_throughputRatio s)")
  case False
  then have "UpdateBeta (s\<lparr>m_lastCon := now\<rparr>)
               = Inr (s\<lparr>m_lastCon := now, m_beta := m_defaultBackoff s\<rparr>)"
    by (auto simp add: UpdateBeta_def Let_def)
  then show ?thesis using assms by (auto simp add: epoch_inv_def)
next
  case True
  then have "m_throughput s \<noteq> 0" by (auto simp: word_greater_zero_iff)
  then have le: "m_minRtt s \<le> m_maxRtt s" using assms by (simp add: epoch_inv_def)
  have i: "0 \<le> m_delta s" "m_delta s \<le> Time_Max" "0 < m_minRtt s" "m_maxRtt s \<le> Time_Max"
    using assms by (simp_all add: epoch_inv_def)
  have mx: "m_maxRtt s \<noteq> 0" using le i(3) by simp
  obtain b where b: "UpdateBeta_value literal_2_71828 s = Finite b" "0 \<le> b" "b \<le> 1"
    using UpdateBeta_value_range [OF i(1,2,3) le i(4)] by blast
  have "UpdateBeta (s\<lparr>m_lastCon := now\<rparr>) = Inr (s\<lparr>m_lastCon := now, m_beta := Finite b\<rparr>)"
    using True mx b(1) [unfolded UpdateBeta_value_def]
    by (simp add: UpdateBeta_def Let_def double_div_def GetDouble_eq_0 del: d_pow.simps)
  then show ?thesis using b(2,3) by blast
qed

text \<open>The product of line 168 is a finite value from 0 to the bytes in flight.\<close>

lemma bytes_times_beta:
  assumes "0 \<le> b" "b \<le> 1"
  shows "\<exists>p. d_mul (to_double bytesInFlight) (Finite b) = Finite p \<and> 0 \<le> p \<and> p < 2 ^ 32"
proof -
  have n: "unat bytesInFlight < 2 ^ 32" by (rule unat_less_32)
  then have n53: "unat bytesInFlight < 2 ^ 53" by simp
  have r: "round53 (real (unat bytesInFlight)) = real (unat bytesInFlight)"
    using n53 by (rule round53_nat)
  have "real (unat bytesInFlight) < real (2 ^ 32)" using n by (simp only: of_nat_less_iff)
  then have lt: "real (unat bytesInFlight) < 2 ^ 32" by simp
  also have "(2::real) ^ 32 < huge" using pow2_less_huge [of 32] by simp
  finally have h: "real (unat bytesInFlight) < huge" .
  have nn: "0 \<le> real (unat bytesInFlight)" by (rule of_nat_0_le_iff)
  have "real (unat bytesInFlight) * b \<le> real (unat bytesInFlight) * 1"
    by (rule mult_left_mono [OF assms(2) nn])
  then have le: "real (unat bytesInFlight) * b \<le> real (unat bytesInFlight)" by simp
  have ge: "0 \<le> real (unat bytesInFlight) * b" by (rule mult_nonneg_nonneg [OF nn assms(1)])
  have "\<exists>p. rnd (real (unat bytesInFlight) * b) = Finite p \<and> 0 \<le> p \<and>
      p \<le> real (unat bytesInFlight)"
    by (rule rnd_upto [OF r ge le h])
  then obtain p where "rnd (real (unat bytesInFlight) * b) = Finite p" "0 \<le> p"
    "p \<le> real (unat bytesInFlight)" by blast
  then have "d_mul (to_double bytesInFlight) (Finite b) = Finite p \<and> 0 \<le> p \<and> p < 2 ^ 32"
    using lt by (simp add: to_double_def)
  then show ?thesis by blast
qed

lemma GetSsThresh_defined:
  assumes inv: "epoch_inv s t"
  shows "\<exists>b p. GetSsThresh s now tcb bytesInFlight
             = Inr (max (2 * m_segmentSize tcb) (word_of_int \<lfloor>p\<rfloor>),
                    (UpdateAlpha now (s\<lparr>m_lastCon := now, m_beta := Finite b\<rparr>))
                      \<lparr>m_minRtt := Time_Max, m_maxRtt := Time_Min,
                       m_lastThroughput := m_throughput s, m_throughput := 0,
                       m_dataSent := 0\<rparr>) \<and>
           UpdateBeta (s\<lparr>m_lastCon := now\<rparr>) = Inr (s\<lparr>m_lastCon := now, m_beta := Finite b\<rparr>) \<and>
           0 \<le> b \<and> b \<le> 1 \<and>
           d_mul (to_double bytesInFlight) (Finite b) = Finite p \<and> 0 \<le> p \<and> p < 2 ^ 32"
proof -
  obtain b where b: "UpdateBeta (s\<lparr>m_lastCon := now\<rparr>)
      = Inr (s\<lparr>m_lastCon := now, m_beta := Finite b\<rparr>)" "0 \<le> b" "b \<le> 1"
    using UpdateBeta_defined [OF inv] by blast
  obtain p where p: "d_mul (to_double bytesInFlight) (Finite b) = Finite p" "0 \<le> p"
      "p < 2 ^ 32"
    using bytes_times_beta [OF b(2,3)] by blast
  have conv: "to_uint32 (Finite p) = Inr (word_of_int \<lfloor>p\<rfloor>)"
    using p(2,3) by (rule to_uint32_Inr)
  have "GetSsThresh s now tcb bytesInFlight
             = Inr (max (2 * m_segmentSize tcb) (word_of_int \<lfloor>p\<rfloor>),
                    (UpdateAlpha now (s\<lparr>m_lastCon := now, m_beta := Finite b\<rparr>))
                      \<lparr>m_minRtt := Time_Max, m_maxRtt := Time_Min,
                       m_lastThroughput := m_throughput s, m_throughput := 0,
                       m_dataSent := 0\<rparr>)"
    by (simp add: GetSsThresh_def b(1) Let_def UpdateAlpha_fields p(1) conv
        del: d_mul.simps)
  then show ?thesis using b p by blast
qed

lemma epoch_inv_congestion:
  assumes "epoch_inv s t" "t \<le> now" "now \<le> Time_Max"
    "GetSsThresh s now tcb bytesInFlight = Inr (ssThresh, s')"
  shows "epoch_inv s' now"
proof -
  obtain b and p :: real where r: "GetSsThresh s now tcb bytesInFlight
             = Inr (max (2 * m_segmentSize tcb) (word_of_int \<lfloor>p\<rfloor>),
                    (UpdateAlpha now (s\<lparr>m_lastCon := now, m_beta := Finite b\<rparr>))
                      \<lparr>m_minRtt := Time_Max, m_maxRtt := Time_Min,
                       m_lastThroughput := m_throughput s, m_throughput := 0,
                       m_dataSent := 0\<rparr>)" "0 \<le> b" "b \<le> 1"
    using GetSsThresh_defined [OF assms(1), of now tcb bytesInFlight] by blast
  have "s' = (UpdateAlpha now (s\<lparr>m_lastCon := now, m_beta := Finite b\<rparr>))
                      \<lparr>m_minRtt := Time_Max, m_maxRtt := Time_Min,
                       m_lastThroughput := m_throughput s, m_throughput := 0,
                       m_dataSent := 0\<rparr>"
    using r(1) assms(4) by simp
  then show ?thesis
    using assms(1-3) r(2,3) Time_bounds
    by (simp add: epoch_inv_def UpdateAlpha_fields)
qed

lemma reachable_epoch_inv: "reachable s t \<Longrightarrow> epoch_inv s t"
proof (induction rule: reachable.induct)
  case (constructed defaultBackoff throughputRatio deltaL)
  then show ?case by (rule epoch_inv_constructed)
next
  case (acked s t now rtt tcb segmentsAcked s')
  obtain thr where "s' = PktsAcked_rest (PktsAcked_dataSent s tcb segmentsAcked) now rtt thr"
    using PktsAcked_Inr_rest [OF acked.hyps(6)] by blast
  then show ?case using acked.IH acked.hyps(2-5) by (simp add: epoch_inv_rest)
next
  case (acked_undefined s t now rtt tcb segmentsAcked e throughput)
  then show ?case by (simp add: epoch_inv_rest)
next
  case (congestion s t now tcb bytesInFlight ssThresh s')
  then show ?case using epoch_inv_congestion by blast
next
  case (avoidance s t tcb segmentsAcked s' tcb')
  then show ?case using CongestionAvoidance_state by blast
qed

lemma example_controller_reachable: "reachable example_controller 0"
  unfolding example_controller_def by (rule reachable.constructed) simp_all


section \<open>The elapsed time of an acknowledgement\<close>

lemma rne_error: "\<bar>of_int (rne y) - y\<bar> \<le> 1/2"
proof -
  have "of_int \<lfloor>y\<rfloor> \<le> y" "y < of_int \<lfloor>y\<rfloor> + 1" by linarith+
  then show ?thesis by (auto simp add: rne_def Let_def)
qed

lemma round53_error: "\<bar>round53 x - x\<bar> \<le> 2 powi ulp_exp x / 2"
proof (cases "x = 0")
  case True
  then show ?thesis by simp
next
  case False
  define u :: real where "u = 2 powi ulp_exp x"
  have u: "0 < u" by (simp add: u_def)
  have "round53 x - x = (of_int (rne (x / u)) - x / u) * u"
    using False u by (simp add: round53_def u_def field_simps)
  then have "\<bar>round53 x - x\<bar> = \<bar>of_int (rne (x / u)) - x / u\<bar> * u"
    using u by (simp add: abs_mult)
  also have "\<dots> \<le> 1/2 * u" using u rne_error [of "x / u"] by (intro mult_right_mono) simp_all
  finally show ?thesis by (simp add: u_def)
qed

lemma GetSeconds_error:
  assumes "0 \<le> t" "t \<le> Time_Max"
  shows "\<bar>round53 (real_of_int t / 1000000000) - real_of_int t / 1000000000\<bar> \<le> 2 powi (- 20)"
proof (cases "t = 0")
  case True
  then show ?thesis by simp
next
  case False
  define x where "x = real_of_int t / 1000000000"
  have x0: "x \<noteq> 0" using False by (simp add: x_def)
  have "real_of_int t \<le> real_of_int Time_Max" using assms(2) by (simp only: of_int_le_iff)
  then have "x < 2 ^ 34" by (simp add: x_def Time_Max_def)
  moreover have "0 \<le> x" using assms(1) by (simp add: x_def)
  ultimately have "\<bar>x\<bar> < 2 powi 34" by simp
  moreover have "2 powi binade_exp x \<le> \<bar>x\<bar>" using binade(1) [OF x0] .
  ultimately have "(2::real) powi binade_exp x < 2 powi 34" by linarith
  then have "binade_exp x < 34"
    using power_int_increasing [of 34 "binade_exp x" "2::real"]
    by (cases "binade_exp x < 34") simp_all
  then have "ulp_exp x \<le> - 19" by (simp add: ulp_exp_def)
  then have "(2::real) powi ulp_exp x \<le> 2 powi (- 19)"
    by (intro power_int_increasing) simp_all
  then have "(2::real) powi ulp_exp x / 2 \<le> 2 powi (- 19) / 2" by simp
  also have "\<dots> = 2 powi (- 20)" by (simp add: power_int_minus)
  finally have "\<bar>round53 x - x\<bar> \<le> 2 powi (- 20)"
    using round53_error [of x] by linarith
  then show ?thesis by (simp only: x_def)
qed

text \<open>
  One second or more after the last congestion event the elapsed time of line 192 is at
  least half a second in the arithmetic of \<open>double\<close>.
\<close>

lemma elapsed_seconds:
  assumes "0 \<le> a" "a + 1000000000 \<le> c" "c \<le> Time_Max"
  shows "\<exists>e. d_sub (GetSeconds c) (GetSeconds a) = Finite e \<and> 1/2 \<le> e"
proof -
  define x where "x = real_of_int a / 1000000000"
  define y where "y = real_of_int c / 1000000000"
  have a: "a \<le> Time_Max" and c: "0 \<le> c" using assms by simp_all
  have ex: "\<bar>round53 x - x\<bar> \<le> 2 powi (- 20)"
    unfolding x_def by (rule GetSeconds_error [OF assms(1) a])
  have ey: "\<bar>round53 y - y\<bar> \<le> 2 powi (- 20)"
    unfolding y_def by (rule GetSeconds_error [OF c assms(3)])
  have "real_of_int (a + 1000000000) \<le> real_of_int c"
    using assms(2) by (simp only: of_int_le_iff)
  then have d: "x + 1 \<le> y" by (simp add: x_def y_def field_simps)
  have s: "(2::real) powi (- 20) \<le> 1/8" by (simp add: power_int_minus)
  have lo: "1/2 \<le> round53 y - round53 x" using ex ey d s by linarith
  obtain gy where gy: "GetSeconds c = Finite gy" "0 \<le> gy" "gy \<le> 2 ^ 34"
    using GetSeconds_range [OF c assms(3)] by blast
  obtain gx where gx: "GetSeconds a = Finite gx" "0 \<le> gx" "gx \<le> 2 ^ 34"
    using GetSeconds_range [OF assms(1) a] by blast
  have v: "gy = round53 y" "gx = round53 x"
    using gy(1) gx(1) by (simp_all add: GetSeconds_def x_def y_def)
  have hi: "round53 y - round53 x \<le> 2 ^ 34" using gy(3) gx(2) v by linarith
  have h1: "round53 (1/2) = 1/2" using round53_pow2 [of "- 1"] by (simp add: power_int_minus)
  have h2: "round53 (2 ^ 34) = 2 ^ 34" using round53_pow2 [of 34] by simp
  have h3: "- huge < 1/2" using huge_pos by linarith
  have h4: "(2::real) ^ 34 < huge" using pow2_less_huge [of 34] by simp
  have "rnd (round53 y - round53 x) = Finite (round53 (round53 y - round53 x)) \<and>
        1/2 \<le> round53 (round53 y - round53 x) \<and> round53 (round53 y - round53 x) \<le> 2 ^ 34"
    by (rule rnd_between [OF h1 h2 lo hi h3 h4])
  then show ?thesis by (simp add: gy(1) gx(1) v d_sub_def)
qed

lemma throughput_defined:
  assumes "unat (w::uint32) < 2 ^ 31" "1/2 \<le> e"
  shows "\<exists>thr. to_uint32 (d_quot (to_double w) (Finite e)) = Inr thr"
proof -
  define n where "n = unat w"
  have nn: "0 \<le> real n" by (rule of_nat_0_le_iff)
  have e: "0 < e" using assms(2) by simp
  have "real n / e \<le> real n / (1/2)" using assms(2) nn by (intro divide_left_mono) simp_all
  then have le: "real n / e \<le> real (2 * n)" by simp
  have ge: "0 \<le> real n / e" using nn e by simp
  have b: "2 * n < 2 ^ 32" using assms(1) by (simp add: n_def)
  then have "2 * n < 2 ^ 53" by simp
  then have r: "round53 (real (2 * n)) = real (2 * n)" by (rule round53_nat)
  have "real (2 * n) < real (2 ^ 32)" using b by (simp only: of_nat_less_iff)
  then have lt: "real (2 * n) < 2 ^ 32" by simp
  also have "(2::real) ^ 32 < huge" using pow2_less_huge [of 32] by simp
  finally have h: "real (2 * n) < huge" .
  have "\<exists>q. rnd (real n / e) = Finite q \<and> 0 \<le> q \<and> q \<le> real (2 * n)"
    by (rule rnd_upto [OF r ge le h])
  then obtain q where q: "rnd (real n / e) = Finite q" "0 \<le> q" "q \<le> real (2 * n)" by blast
  have "q < 2 ^ 32" using q(3) lt by linarith
  then have "to_uint32 (Finite q) = Inr (word_of_int \<lfloor>q\<rfloor>)" using q(2) by (intro to_uint32_Inr)
  then show ?thesis by (simp add: to_double_def n_def [symmetric] q(1))
qed

lemma PktsAcked_defined:
  assumes "0 \<le> m_lastCon s" "m_lastCon s + 1000000000 \<le> now" "now \<le> Time_Max"
    "unat (m_dataSent (PktsAcked_dataSent s tcb segmentsAcked)) < 2 ^ 31"
  shows "\<exists>thr. PktsAcked s now tcb segmentsAcked rtt
           = Inr (PktsAcked_rest (PktsAcked_dataSent s tcb segmentsAcked) now rtt thr)"
proof -
  obtain e where e: "d_sub (GetSeconds now) (GetSeconds (m_lastCon s)) = Finite e" "1/2 \<le> e"
    using elapsed_seconds [OF assms(1-3)] by blast
  have nz: "Finite e \<noteq> Finite 0" using e(2) by simp
  obtain thr where "to_uint32 (d_quot (to_double (m_dataSent
      (PktsAcked_dataSent s tcb segmentsAcked))) (Finite e)) = Inr thr"
    using throughput_defined [OF assms(4) e(2)] by blast
  then have "PktsAcked s now tcb segmentsAcked rtt
           = Inr (PktsAcked_rest (PktsAcked_dataSent s tcb segmentsAcked) now rtt thr)"
    by (simp add: PktsAcked_def Let_def PktsAcked_dataSent_fields e(1) double_div_Inr [OF nz]
        del: d_quot.simps)
  then show ?thesis by blast
qed


section \<open>GetSsThresh\<close>

lemma uint_word_of_floor:
  "0 \<le> x \<Longrightarrow> x < 2 ^ 32 \<Longrightarrow> uint (word_of_int \<lfloor>x\<rfloor> :: uint32) = \<lfloor>x\<rfloor>"
proof -
  assume a: "0 \<le> x" "x < 2 ^ 32"
  have "\<lfloor>x\<rfloor> < 2 ^ 32" using a(2) by (simp add: floor_less_iff)
  moreover have "0 \<le> \<lfloor>x\<rfloor>" using a(1) by simp
  ultimately show ?thesis by (simp add: uint_word_of_int)
qed

lemma uint_max: "uint (max a b) = max (uint a) (uint (b::uint32))"
  by (simp add: max_def word_le_def)

lemma twice_segment:
  assumes "unat (w::uint32) < 2 ^ 31"
  shows "(2 * uint w) mod 2 ^ 32 = 2 * uint w"
proof -
  have "int (unat w) < int (2 ^ 31)" using assms by (simp only: of_nat_less_iff)
  then have "uint w < 2 ^ 31" by simp
  then show ?thesis by (intro mod_pos_pos_trivial) simp_all
qed

text \<open>
  C4, as amended. From every reachable state \<open>GetSsThresh\<close> returns
  \<open>max ((2 * segmentSize) mod 2 ^ 32) (floor p)\<close>, where \<open>p\<close> is the product
  \<open>bytesInFlight * beta\<close> rounded to the nearest \<open>double\<close> and \<open>beta\<close> is the value that
  \<open>UpdateBeta\<close> computed in the same call and that the controller then holds. For a
  segment size below \<open>2 ^ 31\<close> this is \<open>max (2 * segmentSize) (floor p)\<close> and never
  below \<open>2 * segmentSize\<close>.
\<close>

theorem GetSsThresh_value:
  assumes "reachable s t"
  shows "\<exists>ssThresh s' b. GetSsThresh s now tcb bytesInFlight = Inr (ssThresh, s') \<and>
           UpdateBeta (s\<lparr>m_lastCon := now\<rparr>) = Inr (s\<lparr>m_lastCon := now, m_beta := Finite b\<rparr>) \<and>
           m_beta s' = Finite b \<and>
           uint ssThresh = max ((2 * uint (m_segmentSize tcb)) mod 2 ^ 32)
                             \<lfloor>round53 (real (unat bytesInFlight) * b)\<rfloor> \<and>
           (unat (m_segmentSize tcb) < 2 ^ 31 \<longrightarrow>
              uint ssThresh = max (2 * uint (m_segmentSize tcb))
                                \<lfloor>round53 (real (unat bytesInFlight) * b)\<rfloor> \<and>
              2 * uint (m_segmentSize tcb) \<le> uint ssThresh)"
proof -
  have inv: "epoch_inv s t" using assms by (rule reachable_epoch_inv)
  obtain b and p :: real where r: "GetSsThresh s now tcb bytesInFlight
             = Inr (max (2 * m_segmentSize tcb) (word_of_int \<lfloor>p\<rfloor>),
                    (UpdateAlpha now (s\<lparr>m_lastCon := now, m_beta := Finite b\<rparr>))
                      \<lparr>m_minRtt := Time_Max, m_maxRtt := Time_Min,
                       m_lastThroughput := m_throughput s, m_throughput := 0,
                       m_dataSent := 0\<rparr>)"
      "UpdateBeta (s\<lparr>m_lastCon := now\<rparr>) = Inr (s\<lparr>m_lastCon := now, m_beta := Finite b\<rparr>)"
      "0 \<le> b" "b \<le> 1"
      "d_mul (to_double bytesInFlight) (Finite b) = Finite p" "0 \<le> p" "p < 2 ^ 32"
    using GetSsThresh_defined [OF inv, of now tcb bytesInFlight] by blast
  have p: "p = round53 (real (unat bytesInFlight) * b)"
    using r(5) by (simp add: to_double_def round53_rnd)
  have val: "uint (max (2 * m_segmentSize tcb) (word_of_int \<lfloor>p\<rfloor>))
               = max ((2 * uint (m_segmentSize tcb)) mod 2 ^ 32) \<lfloor>p\<rfloor>"
    using uint_word_of_floor [OF r(6,7)] by (simp add: uint_max uint_word_ariths)
  have beta: "m_beta ((UpdateAlpha now (s\<lparr>m_lastCon := now, m_beta := Finite b\<rparr>))
                      \<lparr>m_minRtt := Time_Max, m_maxRtt := Time_Min,
                       m_lastThroughput := m_throughput s, m_throughput := 0,
                       m_dataSent := 0\<rparr>) = Finite b"
    by (simp add: UpdateAlpha_fields)
  show ?thesis
    using r(1,2) val beta twice_segment [of "m_segmentSize tcb"] unfolding p by auto
qed

text \<open>
  The scenario of the specification: \<open>defaultBackoff = 0.5\<close>, a congestion event at
  time 0 with 30000 bytes in flight and segments of 1000 bytes gives 15000.
\<close>

theorem GetSsThresh_value_witness:
  "reachable example_controller 0 \<and> unat (m_segmentSize example_tcb) < 2 ^ 31 \<and>
   UpdateBeta (example_controller\<lparr>m_lastCon := 0\<rparr>)
     = Inr (example_controller\<lparr>m_lastCon := 0, m_beta := Finite (1/2)\<rparr>) \<and>
   \<lfloor>round53 (real (unat (30000::uint32)) * (1/2))\<rfloor> = 15000 \<and>
   (\<exists>ssThresh s'. GetSsThresh example_controller 0 example_tcb 30000 = Inr (ssThresh, s') \<and>
      m_beta s' = Finite (1/2) \<and> uint ssThresh = 15000 \<and>
      2 * uint (m_segmentSize example_tcb) \<le> uint ssThresh)"
proof -
  have seg: "unat (m_segmentSize example_tcb) < 2 ^ 31" by (simp add: example_tcb_fields)
  have ub: "UpdateBeta (example_controller\<lparr>m_lastCon := 0\<rparr>)
     = Inr (example_controller\<lparr>m_lastCon := 0, m_beta := Finite (1/2)\<rparr>)"
    by (simp add: UpdateBeta_def Let_def example_controller_fields)
  have v: "\<lfloor>round53 (real (unat (30000::uint32)) * (1/2))\<rfloor> = 15000"
    by (simp add: round53_num)
  obtain ssThresh s' b where r:
      "GetSsThresh example_controller 0 example_tcb 30000 = Inr (ssThresh, s')"
      "UpdateBeta (example_controller\<lparr>m_lastCon := 0\<rparr>)
         = Inr (example_controller\<lparr>m_lastCon := 0, m_beta := Finite b\<rparr>)"
      "m_beta s' = Finite b"
      "unat (m_segmentSize example_tcb) < 2 ^ 31 \<longrightarrow>
              uint ssThresh = max (2 * uint (m_segmentSize example_tcb))
                                \<lfloor>round53 (real (unat (30000::uint32)) * b)\<rfloor> \<and>
              2 * uint (m_segmentSize example_tcb) \<le> uint ssThresh"
    using GetSsThresh_value [OF example_controller_reachable, of 0 example_tcb 30000] by blast
  have "m_beta (example_controller\<lparr>m_lastCon := 0, m_beta := Finite (1/2)\<rparr>)
          = m_beta (example_controller\<lparr>m_lastCon := 0, m_beta := Finite b\<rparr>)"
    using ub r(2) by simp
  then have b: "b = 1/2" by simp
  have "uint ssThresh = 15000" "2 * uint (m_segmentSize example_tcb) \<le> uint ssThresh"
    using r(4) seg v unfolding b by (simp_all add: example_tcb_fields)
  then show ?thesis
    using example_controller_reachable seg ub v r(1,3) unfolding b by blast
qed

text \<open>
  The claim as stated fails where \<open>2 * segmentSize\<close> wraps and where the product is
  rounded. With segments of \<open>2 ^ 31\<close> bytes and nothing in flight the source returns 0,
  below \<open>2 * segmentSize = 2 ^ 32\<close>. With a default backoff of 0.3, the \<open>double\<close>
  \<open>5404319552844595 / 2 ^ 54\<close>, and 14600 bytes in flight the product in exact arithmetic
  is below 4380 and its floor is 4379, but the product of \<open>double\<close> is 4380, which the
  source returns.
\<close>

theorem GetSsThresh_value_counterexample:
  "GetSsThresh example_controller 0 (example_tcb\<lparr>m_segmentSize := 2147483648\<rparr>) 0
     = Inr (0, example_controller\<lparr>m_alpha := Finite 1, m_beta := Finite (1/2)\<rparr>) \<and>
   GetNewSsThresh_spec 0 2147483648 (1/2) = 4294967296 \<and>
   GetSsThresh
       (example_controller\<lparr>m_defaultBackoff := Finite (5404319552844595 / 18014398509481984)\<rparr>)
       0 example_tcb 14600
     = Inr (4380,
            example_controller\<lparr>m_defaultBackoff := Finite (5404319552844595 / 18014398509481984),
              m_alpha := Finite (3152519739159347 / 2251799813685248),
              m_beta := Finite (5404319552844595 / 18014398509481984)\<rparr>) \<and>
   GetNewSsThresh_spec 14600 1000 (5404319552844595 / 18014398509481984) = 4379"
proof (intro conjI)
  note f = example_controller_fields example_tcb_fields
  note eq = record_eq
  note half = rnd_half
  show "GetSsThresh example_controller 0 (example_tcb\<lparr>m_segmentSize := 2147483648\<rparr>) 0
     = Inr (0, example_controller\<lparr>m_alpha := Finite 1, m_beta := Finite (1/2)\<rparr>)"
    by (simp add: GetSsThresh_def UpdateBeta_def UpdateAlpha_def Let_def f to_double_def
        d_sub_def half eq)
  show "GetNewSsThresh_spec 0 2147483648 (1/2) = 4294967296"
    by (simp add: GetNewSsThresh_spec_def)
  show "GetNewSsThresh_spec 14600 1000 (5404319552844595 / 18014398509481984) = 4379"
    by (simp add: GetNewSsThresh_spec_def)
  have s1: "rnd (12610078956637389 / 18014398509481984)
              = Finite (3152519739159347 / 4503599627370496)"
  proof -
    have "rnd (12610078956637389 / 18014398509481984)
            = Finite (of_int (rne ((12610078956637389 / 18014398509481984) / 2 powi (- 1 - 52)))
                * 2 powi (- 1 - 52))"
      by (rule rnd_eval) (simp_all add: power_int_minus)
    also have "\<dots> = Finite (3152519739159347 / 4503599627370496)"
      by (simp add: rne_def power_int_minus)
    finally show ?thesis .
  qed
  have s2: "rnd (3152519739159347 / 2251799813685248)
              = Finite (3152519739159347 / 2251799813685248)"
    using rnd_dyadic [of 3152519739159347 51] by simp
  have s3: "rnd (9862883183941385875 / 2251799813685248) = Finite 4380"
  proof -
    have "rnd (9862883183941385875 / 2251799813685248)
            = Finite (of_int (rne ((9862883183941385875 / 2251799813685248) / 2 powi (12 - 52)))
                * 2 powi (12 - 52))"
      by (rule rnd_eval) simp_all
    also have "\<dots> = Finite 4380" by (simp add: rne_def power_int_minus)
    finally show ?thesis .
  qed
  show "GetSsThresh
       (example_controller\<lparr>m_defaultBackoff := Finite (5404319552844595 / 18014398509481984)\<rparr>)
       0 example_tcb 14600
     = Inr (4380,
            example_controller\<lparr>m_defaultBackoff := Finite (5404319552844595 / 18014398509481984),
              m_alpha := Finite (3152519739159347 / 2251799813685248),
              m_beta := Finite (5404319552844595 / 18014398509481984)\<rparr>)"
    by (simp add: GetSsThresh_def UpdateBeta_def UpdateAlpha_def Let_def f to_double_def
        d_sub_def s1 s2 s3 to_uint32_numeral eq)
qed


text \<open>
  A first acknowledgement, one second after the construction of the example controller:
  1000 bytes in one second and an RTT of 100 ms.
\<close>

lemma example_ack:
  "PktsAcked example_controller 1000000000 example_tcb 1 100000000
     = Inr (example_controller\<lparr>m_dataSent := 1000, m_throughput := 1000,
              m_delta := 1000000000, m_alpha := Finite 2, m_minRtt := 100000000,
              m_maxRtt := 100000000\<rparr>)"
  by (simp add: PktsAcked_def PktsAcked_dataSent_def PktsAcked_rest_def UpdateAlpha_def Let_def
      example_controller_fields example_tcb_fields double_div_def to_double_def GetSeconds_def
      d_sub_def rnd_numeral to_uint32_numeral Time_Max_def Time_Min_def)

lemma example_ack_reachable:
  "reachable (example_controller\<lparr>m_dataSent := 1000, m_throughput := 1000,
              m_delta := 1000000000, m_alpha := Finite 2, m_minRtt := 100000000,
              m_maxRtt := 100000000\<rparr>) 1000000000"
  by (rule reachable.acked [OF example_controller_reachable _ _ _ _ example_ack])
    (simp_all add: Time_Max_def)

text \<open>
  C8. From every reachable state \<open>GetSsThresh\<close> returns, and in the state that it returns
  \<open>minRtt\<close> is \<open>Time::Max ()\<close>, \<open>maxRtt\<close> is \<open>Time::Min ()\<close>, \<open>lastThroughput\<close> is the
  throughput that the call found, and \<open>throughput\<close> and \<open>dataSent\<close> are zero. The next
  call of \<open>PktsAcked\<close> sets both \<open>minRtt\<close> and \<open>maxRtt\<close> to its RTT sample, whatever sample
  of the 64-bit range that is: the call returns when it comes one second or more after
  the event and acknowledges less than \<open>2 ^ 31\<close> bytes, and lines 195 to 205 do so
  whatever throughput line 192 has stored.
\<close>

theorem GetSsThresh_resets_epoch:
  assumes "reachable s t" "t \<le> now" "now \<le> Time_Max"
  shows "\<exists>ssThresh s'. GetSsThresh s now tcb bytesInFlight = Inr (ssThresh, s') \<and>
         m_minRtt s' = Time_Max \<and> m_maxRtt s' = Time_Min \<and>
         m_lastThroughput s' = m_throughput s \<and> m_throughput s' = 0 \<and> m_dataSent s' = 0 \<and>
         (\<forall>now' tcb' segmentsAcked rtt.
            now + 1000000000 \<le> now' \<and> now' \<le> Time_Max \<and>
            unat (segmentsAcked * m_segmentSize tcb') < 2 ^ 31 \<and>
            Time_Min \<le> rtt \<and> rtt \<le> Time_Max \<longrightarrow>
            (\<exists>s''. PktsAcked s' now' tcb' segmentsAcked rtt = Inr s'' \<and>
                   m_minRtt s'' = rtt \<and> m_maxRtt s'' = rtt)) \<and>
         (\<forall>now' tcb' segmentsAcked rtt throughput.
            Time_Min \<le> rtt \<and> rtt \<le> Time_Max \<longrightarrow>
            m_minRtt (PktsAcked_rest (PktsAcked_dataSent s' tcb' segmentsAcked) now' rtt
                        throughput) = rtt \<and>
            m_maxRtt (PktsAcked_rest (PktsAcked_dataSent s' tcb' segmentsAcked) now' rtt
                        throughput) = rtt)"
proof -
  have inv: "epoch_inv s t" using assms(1) by (rule reachable_epoch_inv)
  obtain b and p :: real where r: "GetSsThresh s now tcb bytesInFlight
             = Inr (max (2 * m_segmentSize tcb) (word_of_int \<lfloor>p\<rfloor>),
                    (UpdateAlpha now (s\<lparr>m_lastCon := now, m_beta := Finite b\<rparr>))
                      \<lparr>m_minRtt := Time_Max, m_maxRtt := Time_Min,
                       m_lastThroughput := m_throughput s, m_throughput := 0,
                       m_dataSent := 0\<rparr>)"
    using GetSsThresh_defined [OF inv, of now tcb bytesInFlight] by blast
  define s' where "s' = (UpdateAlpha now (s\<lparr>m_lastCon := now, m_beta := Finite b\<rparr>))
                      \<lparr>m_minRtt := Time_Max, m_maxRtt := Time_Min,
                       m_lastThroughput := m_throughput s, m_throughput := 0,
                       m_dataSent := 0\<rparr>"
  have reset: "m_minRtt s' = Time_Max" "m_maxRtt s' = Time_Min"
      "m_lastThroughput s' = m_throughput s" "m_throughput s' = 0" "m_dataSent s' = 0"
      "m_lastCon s' = now"
    by (simp_all add: s'_def UpdateAlpha_fields)
  have now0: "0 \<le> now" using inv assms(2) by (simp add: epoch_inv_def)
  have rest: "m_minRtt (PktsAcked_rest (PktsAcked_dataSent s' tcb' segmentsAcked) now' rtt
                        throughput) = rtt \<and>
              m_maxRtt (PktsAcked_rest (PktsAcked_dataSent s' tcb' segmentsAcked) now' rtt
                        throughput) = rtt"
    if "Time_Min \<le> rtt" "rtt \<le> Time_Max" for now' tcb' segmentsAcked rtt throughput
    using that by (simp add: PktsAcked_rest_fields PktsAcked_dataSent_fields reset)
  have ack: "\<exists>s''. PktsAcked s' now' tcb' segmentsAcked rtt = Inr s'' \<and>
                   m_minRtt s'' = rtt \<and> m_maxRtt s'' = rtt"
    if h: "now + 1000000000 \<le> now'" "now' \<le> Time_Max"
      "unat (segmentsAcked * m_segmentSize tcb') < 2 ^ 31"
      "Time_Min \<le> rtt" "rtt \<le> Time_Max"
    for now' tcb' segmentsAcked rtt
  proof -
    have d: "unat (m_dataSent (PktsAcked_dataSent s' tcb' segmentsAcked)) < 2 ^ 31"
      using h(3) by (simp add: PktsAcked_dataSent_def reset)
    have l: "0 \<le> m_lastCon s'" "m_lastCon s' + 1000000000 \<le> now'"
      using now0 h(1) by (simp_all add: reset)
    obtain thr where "PktsAcked s' now' tcb' segmentsAcked rtt
           = Inr (PktsAcked_rest (PktsAcked_dataSent s' tcb' segmentsAcked) now' rtt thr)"
      using PktsAcked_defined [OF l h(2) d] by blast
    then show ?thesis using rest [OF h(4,5)] by simp
  qed
  show ?thesis
    using r reset(1-5) ack rest unfolding s'_def [symmetric] by blast
qed

text \<open>
  After the first acknowledgement of the example, a congestion event at 2 s with 30000
  bytes in flight returns 15000 and keeps the throughput 1000 as the last one; the
  acknowledgement at 3 s with an RTT of 200 ms returns and sets both RTTs to 200 ms.
\<close>

theorem GetSsThresh_resets_epoch_witness:
  "reachable (example_controller\<lparr>m_dataSent := 1000, m_throughput := 1000,
              m_delta := 1000000000, m_alpha := Finite 2, m_minRtt := 100000000,
              m_maxRtt := 100000000\<rparr>) 1000000000 \<and>
   (1000000000::int) \<le> 2000000000 \<and> 2000000000 \<le> Time_Max \<and>
   GetSsThresh (example_controller\<lparr>m_dataSent := 1000, m_throughput := 1000,
              m_delta := 1000000000, m_alpha := Finite 2, m_minRtt := 100000000,
              m_maxRtt := 100000000\<rparr>) 2000000000 example_tcb 30000
     = Inr (15000, example_controller\<lparr>m_alpha := Finite 1, m_beta := Finite (1/2),
              m_lastCon := 2000000000, m_lastThroughput := 1000\<rparr>) \<and>
   m_lastThroughput (example_controller\<lparr>m_alpha := Finite 1, m_beta := Finite (1/2),
      m_lastCon := 2000000000, m_lastThroughput := 1000\<rparr>) = 1000 \<and>
   m_minRtt (example_controller\<lparr>m_alpha := Finite 1, m_beta := Finite (1/2),
      m_lastCon := 2000000000, m_lastThroughput := 1000\<rparr>) = Time_Max \<and>
   (2000000000::int) + 1000000000 \<le> 3000000000 \<and> 3000000000 \<le> Time_Max \<and>
   unat (1 * m_segmentSize example_tcb) < 2 ^ 31 \<and>
   Time_Min \<le> 200000000 \<and> 200000000 \<le> Time_Max \<and>
   PktsAcked (example_controller\<lparr>m_alpha := Finite 1, m_beta := Finite (1/2),
       m_lastCon := 2000000000, m_lastThroughput := 1000\<rparr>) 3000000000 example_tcb 1 200000000
     = Inr (example_controller\<lparr>m_alpha := Finite 1, m_beta := Finite (1/2),
              m_lastCon := 2000000000, m_lastThroughput := 1000, m_dataSent := 1000,
              m_throughput := 1000, m_delta := 1000000000, m_minRtt := 200000000,
              m_maxRtt := 200000000\<rparr>) \<and>
   m_minRtt (example_controller\<lparr>m_alpha := Finite 1, m_beta := Finite (1/2),
              m_lastCon := 2000000000, m_lastThroughput := 1000, m_dataSent := 1000,
              m_throughput := 1000, m_delta := 1000000000, m_minRtt := 200000000,
              m_maxRtt := 200000000\<rparr>)
     = 200000000"
proof -
  define s where "s = example_controller\<lparr>m_dataSent := 1000, m_throughput := 1000,
              m_delta := 1000000000, m_alpha := Finite 2, m_minRtt := 100000000,
              m_maxRtt := 100000000\<rparr>"
  define s' where "s' = example_controller\<lparr>m_alpha := Finite 1, m_beta := Finite (1/2),
       m_lastCon := 2000000000, m_lastThroughput := 1000\<rparr>"
  define s'' where "s'' = example_controller\<lparr>m_alpha := Finite 1, m_beta := Finite (1/2),
       m_lastCon := 2000000000, m_lastThroughput := 1000, m_dataSent := 1000,
       m_throughput := 1000, m_delta := 1000000000, m_minRtt := 200000000,
       m_maxRtt := 200000000\<rparr>"
  note f = example_controller_fields example_tcb_fields
  note eq = record_eq
  note half = rnd_half
  have re: "reachable s 1000000000" unfolding s_def by (rule example_ack_reachable)
  have tm: "(1000000000::int) \<le> 2000000000" "2000000000 \<le> Time_Max"
      "(2000000000::int) + 1000000000 \<le> 3000000000" "3000000000 \<le> Time_Max"
      "Time_Min \<le> 200000000" "200000000 \<le> Time_Max"
    by (simp_all add: Time_Max_def Time_Min_def)
  have seg: "unat (1 * m_segmentSize example_tcb) < 2 ^ 31" by (simp add: f)
  have run: "GetSsThresh s 2000000000 example_tcb 30000 = Inr (15000, s')"
    by (simp add: s_def s'_def GetSsThresh_def UpdateBeta_def UpdateAlpha_def Let_def f
        to_double_def d_sub_def half rnd_numeral to_uint32_numeral eq)
  have ack: "PktsAcked s' 3000000000 example_tcb 1 200000000 = Inr s''"
    by (simp add: s'_def s''_def PktsAcked_def PktsAcked_dataSent_def PktsAcked_rest_def
        UpdateAlpha_def Let_def f double_div_def to_double_def GetSeconds_def d_sub_def half
        rnd_numeral round53_num to_uint32_numeral Time_Max_def Time_Min_def eq)
  obtain ssThresh s1 where t:
      "GetSsThresh s 2000000000 example_tcb 30000 = Inr (ssThresh, s1)"
      "m_minRtt s1 = Time_Max" "m_lastThroughput s1 = m_throughput s"
      "\<forall>now' tcb' segmentsAcked rtt.
            2000000000 + 1000000000 \<le> now' \<and> now' \<le> Time_Max \<and>
            unat (segmentsAcked * m_segmentSize tcb') < 2 ^ 31 \<and>
            Time_Min \<le> rtt \<and> rtt \<le> Time_Max \<longrightarrow>
            (\<exists>s''. PktsAcked s1 now' tcb' segmentsAcked rtt = Inr s'' \<and>
                   m_minRtt s'' = rtt \<and> m_maxRtt s'' = rtt)"
    using GetSsThresh_resets_epoch [OF re tm(1,2), of example_tcb 30000] by blast
  have s1: "s1 = s'" using t(1) run by simp
  have a: "m_lastThroughput s' = 1000" "m_minRtt s' = Time_Max"
    using t(2,3) unfolding s1 by (simp_all add: s_def)
  have "\<exists>s''. PktsAcked s' 3000000000 example_tcb 1 200000000 = Inr s'' \<and>
                   m_minRtt s'' = 200000000 \<and> m_maxRtt s'' = 200000000"
    using t(4) tm(3-6) seg unfolding s1 by blast
  then have b: "m_minRtt s'' = 200000000" using ack by auto
  show ?thesis using re tm seg run ack a b unfolding s_def s'_def s''_def by blast
qed


section \<open>PktsAcked\<close>

text \<open>
  C2. The source divides by the elapsed time on every call. A call at the time of the
  last congestion event (as the acknowledgement that follows \<open>GetSsThresh\<close> in the same
  simulation event) divides by zero and has no result; a call with a negative elapsed
  time overwrites the stored throughput, here 5, with the truncated quotient, here 0.
\<close>

theorem PktsAcked_unguarded_division:
  "PktsAcked s (m_lastCon s) tcb segmentsAcked rtt = Inl DivisionByZero \<and>
   PktsAcked (example_controller\<lparr>m_lastCon := 1000000000, m_throughput := 5\<rparr>) 0
       (example_tcb\<lparr>m_congState := CA_RECOVERY\<rparr>) 1 100000000
     = Inr (example_controller\<lparr>m_lastCon := 1000000000, m_throughput := 0,
              m_delta := - 1000000000, m_alpha := Finite 2, m_minRtt := 100000000,
              m_maxRtt := 100000000\<rparr>)"
proof
  show "PktsAcked s (m_lastCon s) tcb segmentsAcked rtt = Inl DivisionByZero"
    by (simp add: PktsAcked_def Let_def double_div_def PktsAcked_dataSent_fields GetSeconds_def
        d_sub_def)
  note eq = record_eq
  have m1: "rnd (- 1) = Finite (- 1)" using rnd_of_int [of "- 1"] by simp
  show "PktsAcked (example_controller\<lparr>m_lastCon := 1000000000, m_throughput := 5\<rparr>) 0
       (example_tcb\<lparr>m_congState := CA_RECOVERY\<rparr>) 1 100000000
     = Inr (example_controller\<lparr>m_lastCon := 1000000000, m_throughput := 0,
              m_delta := - 1000000000, m_alpha := Finite 2, m_minRtt := 100000000,
              m_maxRtt := 100000000\<rparr>)"
    by (simp add: PktsAcked_def PktsAcked_dataSent_def PktsAcked_rest_def UpdateAlpha_def Let_def
        example_controller_fields example_tcb_fields double_div_def to_double_def GetSeconds_def
        d_sub_def m1 rnd_numeral Time_Max_def Time_Min_def eq)
qed


text \<open>
  With a minimum RTT of 100 ms the exponent of the power is above 799 when 20000 s have
  passed since the last congestion event, and the power overflows.
\<close>

lemma power_overflows:
  "d_pow literal_2_71828
     (d_quot (d_sub (d_mul (Finite 14) (GetSeconds 20000000000000))
                (d_mul (Finite 5) (GetSeconds 100000000)))
        (Finite 350)) = PlusInf"
proof -
  have e1: "GetSeconds 20000000000000 = Finite 20000"
    by (simp add: GetSeconds_def round53_num)
  have m: "d_mul (Finite 14) (Finite 20000) = Finite 280000" by (simp add: rnd_numeral)
  have "round53 0 \<le> round53 (1/10)" "round53 (1/10) \<le> round53 1"
    by (rule round53_mono, simp)+
  then obtain g where g: "GetSeconds 100000000 = Finite g" "0 \<le> g" "g \<le> 1"
    by (simp add: GetSeconds_def)
  have r5: "round53 5 = 5" by (simp add: round53_num)
  have h5: "(5::real) < huge" using pow2_less_huge [of 3] by simp
  have "5 * g \<le> 5" "0 \<le> 5 * g" using g(2,3) by simp_all
  then have "\<exists>h. rnd (5 * g) = Finite h \<and> 0 \<le> h \<and> h \<le> 5"
    using r5 h5 by (intro rnd_upto) simp_all
  then obtain h where h: "d_mul (Finite 5) (Finite g) = Finite h" "0 \<le> h" "h \<le> 5" by auto
  have ra: "round53 279995 = 279995" "round53 280000 = 280000" by (simp_all add: round53_num)
  have hb: "- huge < 279995" "(280000::real) < huge"
    using pow2_less_huge [of 19] huge_pos by simp_all
  have "rnd (280000 - h) = Finite (round53 (280000 - h)) \<and> 279995 \<le> round53 (280000 - h) \<and>
        round53 (280000 - h) \<le> 280000"
    using h(2,3) by (intro rnd_between ra hb) simp_all
  then obtain u where u: "d_sub (Finite 280000) (Finite h) = Finite u" "279995 \<le> u"
      "u \<le> 280000"
    by (simp add: d_sub_def)
  have rc: "round53 799 = 799" "round53 800 = 800" by (simp_all add: round53_num)
  have hc: "- huge < 799" "(800::real) < huge"
    using pow2_less_huge [of 10] huge_pos by simp_all
  have "rnd (u / 350) = Finite (round53 (u / 350)) \<and> 799 \<le> round53 (u / 350) \<and>
        round53 (u / 350) \<le> 800"
    using u(2,3) by (intro rnd_between rc hc) simp_all
  then obtain x where x: "d_quot (Finite u) (Finite 350) = Finite x" "799 \<le> x" by simp
  show ?thesis
    by (simp only: e1 m g(1) h(1) u(1) x(1) d_pow_overflow [OF x(2)])
qed

lemma polynomial_19999:
  "d_add (d_add (Finite 1) (d_mul (Finite 10) (GetSeconds 19999000000000)))
     (d_mul (Finite (1/4))
        (d_mul (GetSeconds 19999000000000) (GetSeconds 19999000000000)))
     = Finite (400759965 / 4)"
proof -
  have e: "GetSeconds 19999000000000 = Finite 19999"
    by (simp add: GetSeconds_def round53_num)
  have q: "rnd (399960001 / 4) = Finite (399960001 / 4)"
    using rnd_dyadic [of 399960001 2] by simp
  have r: "rnd (400759965 / 4) = Finite (400759965 / 4)"
    using rnd_dyadic [of 400759965 2] by simp
  show ?thesis by (simp add: e rnd_numeral q r)
qed

lemma d_max_1: "d_max a (Finite 1) = NaN \<or> d_le (Finite 1) (d_max a (Finite 1))"
  by (cases a) (simp_all add: d_max_def)

text \<open>
  C6. The last step of \<open>UpdateAlpha\<close>, \<open>if (m_alpha < 1) m_alpha = 1\<close>, leaves every
  value that is not below 1, and a NaN is not: the result is NaN or at least 1. It is NaN
  in a state that the host stack reaches with a default backoff of 1, which the attribute
  checker accepts: after a congestion event \<open>beta = 1\<close>; an acknowledgement a second
  later records an RTT of 100 ms; at the acknowledgement 20000 s after the event the power
  overflows to infinity, \<open>2 * (1 - beta)\<close> is zero, and their product is NaN, which the
  call stores as \<open>alpha\<close>.
\<close>

theorem UpdateAlpha_not_a_number:
  "(m_alpha (UpdateAlpha now s) = NaN \<or> d_le (Finite 1) (m_alpha (UpdateAlpha now s))) \<and>
   reachable
     (example_controller\<lparr>m_defaultBackoff := Finite 1, m_alpha := Finite 1, m_beta := Finite 1,
        m_delta := 1000000000, m_minRtt := 100000000, m_maxRtt := 100000000\<rparr>) 1000000000 \<and>
   m_alpha (UpdateAlpha 20000000000000
     (example_controller\<lparr>m_defaultBackoff := Finite 1, m_alpha := Finite 1, m_beta := Finite 1,
        m_delta := 1000000000, m_minRtt := 100000000, m_maxRtt := 100000000\<rparr>)) = NaN \<and>
   PktsAcked
     (example_controller\<lparr>m_defaultBackoff := Finite 1, m_alpha := Finite 1, m_beta := Finite 1,
        m_delta := 1000000000, m_minRtt := 100000000, m_maxRtt := 100000000\<rparr>)
     20000000000000 (example_tcb\<lparr>m_congState := CA_RECOVERY\<rparr>) 1 100000000
     = Inr (example_controller\<lparr>m_defaultBackoff := Finite 1, m_alpha := NaN, m_beta := Finite 1,
              m_delta := 20000000000000, m_minRtt := 100000000, m_maxRtt := 100000000\<rparr>)"
proof (intro conjI)
  note f = example_controller_fields example_tcb_fields
  note eq = record_eq
  define n0 where "n0 = example_controller\<lparr>m_defaultBackoff := Finite 1\<rparr>"
  define n1 where "n1 = example_controller\<lparr>m_defaultBackoff := Finite 1, m_alpha := Finite 1,
      m_beta := Finite 1\<rparr>"
  define n2 where "n2 = example_controller\<lparr>m_defaultBackoff := Finite 1, m_alpha := Finite 1,
      m_beta := Finite 1, m_delta := 1000000000, m_minRtt := 100000000,
      m_maxRtt := 100000000\<rparr>"
  show "m_alpha (UpdateAlpha now s) = NaN \<or> d_le (Finite 1) (m_alpha (UpdateAlpha now s))"
    by (simp add: UpdateAlpha_eq_spec UpdateAlpha_spec_def Let_def d_max_1)
  have "n0 = TcpShtcp_new (Finite 1) (rnd (1/5)) 1000000000"
    by (simp add: n0_def example_controller_def TcpShtcp_new_def)
  moreover have "reachable (TcpShtcp_new (Finite 1) (rnd (1/5)) 1000000000) 0"
    by (rule reachable.constructed) simp_all
  ultimately have r0: "reachable n0 0" by simp
  have g: "GetSsThresh n0 0 example_tcb 30000 = Inr (30000, n1)"
    by (simp add: n0_def n1_def GetSsThresh_def UpdateBeta_def UpdateAlpha_def Let_def f
        to_double_def d_sub_def rnd_numeral to_uint32_numeral eq)
  have r1: "reachable n1 0"
    by (rule reachable.congestion [OF r0 _ _ g]) (simp_all add: Time_Max_def)
  have a1: "PktsAcked n1 1000000000 (example_tcb\<lparr>m_congState := CA_RECOVERY\<rparr>) 1 100000000
              = Inr n2"
    by (simp add: n1_def n2_def PktsAcked_def PktsAcked_dataSent_def PktsAcked_rest_def
        UpdateAlpha_def Let_def f double_div_def to_double_def GetSeconds_def d_sub_def
        rnd_numeral Time_Max_def Time_Min_def eq)
  have r2: "reachable n2 1000000000"
    by (rule reachable.acked [OF r1 _ _ _ _ a1]) (simp_all add: Time_Max_def)
  then show "reachable
     (example_controller\<lparr>m_defaultBackoff := Finite 1, m_alpha := Finite 1, m_beta := Finite 1,
        m_delta := 1000000000, m_minRtt := 100000000, m_maxRtt := 100000000\<rparr>) 1000000000"
    by (simp only: n2_def)
  have z: "d_sub (Finite 1) (Finite 1) = Finite 0" by (simp add: d_sub_def)
  have nan: "m_alpha (UpdateAlpha 20000000000000 n2) = NaN"
    by (simp add: n2_def UpdateAlpha_def Let_def f power_overflows polynomial_19999 z
        inf_of_def)
  then show "m_alpha (UpdateAlpha 20000000000000
     (example_controller\<lparr>m_defaultBackoff := Finite 1, m_alpha := Finite 1, m_beta := Finite 1,
        m_delta := 1000000000, m_minRtt := 100000000, m_maxRtt := 100000000\<rparr>)) = NaN"
    by (simp only: n2_def)
  have e: "GetSeconds 20000000000000 = Finite 20000"
    by (simp add: GetSeconds_def round53_num)
  have t0: "n2\<lparr>m_throughput := 0\<rparr> = n2" by (simp add: n2_def eq f)
  have n2f: "m_minRtt n2 = 100000000" "m_maxRtt n2 = 100000000" "m_lastCon n2 = 0"
      "m_dataSent n2 = 0"
    by (simp_all add: n2_def f)
  have rest: "PktsAcked_rest n2 20000000000000 100000000 0 = UpdateAlpha 20000000000000 n2"
    by (simp add: PktsAcked_rest_def Let_def t0 UpdateAlpha_fields n2f)
  have "PktsAcked n2 20000000000000 (example_tcb\<lparr>m_congState := CA_RECOVERY\<rparr>) 1 100000000
     = Inr (PktsAcked_rest n2 20000000000000 100000000 0)"
    by (simp add: PktsAcked_def PktsAcked_dataSent_def Let_def n2f
        double_div_def to_double_def e d_sub_def rnd_numeral GetSeconds_def [of 0])
  then have "PktsAcked n2 20000000000000 (example_tcb\<lparr>m_congState := CA_RECOVERY\<rparr>) 1
      100000000 = Inr (UpdateAlpha 20000000000000 n2)"
    by (simp only: rest)
  moreover have "UpdateAlpha 20000000000000 n2
      = example_controller\<lparr>m_defaultBackoff := Finite 1, m_alpha := NaN, m_beta := Finite 1,
              m_delta := 20000000000000, m_minRtt := 100000000, m_maxRtt := 100000000\<rparr>"
    using nan by (simp add: eq UpdateAlpha_fields) (simp add: n2_def f)
  ultimately show "PktsAcked
     (example_controller\<lparr>m_defaultBackoff := Finite 1, m_alpha := Finite 1, m_beta := Finite 1,
        m_delta := 1000000000, m_minRtt := 100000000, m_maxRtt := 100000000\<rparr>)
     20000000000000 (example_tcb\<lparr>m_congState := CA_RECOVERY\<rparr>) 1 100000000
     = Inr (example_controller\<lparr>m_defaultBackoff := Finite 1, m_alpha := NaN, m_beta := Finite 1,
              m_delta := 20000000000000, m_minRtt := 100000000, m_maxRtt := 100000000\<rparr>)"
    by (simp only: n2_def)
qed


section \<open>The range of beta\<close>

text \<open>
  After an epoch of at most 16000 s the power of line 153 is at least \<open>2 ^ (- 960)\<close>, and
  its product with the ratio of the RTTs does not underflow.
\<close>

lemma decay_lower:
  assumes "- 640 \<le> y" "y \<le> 0"
  shows "2 powi (- 960) \<le> literal_2_71828 powr y"
proof -
  have "2 powr real_of_int (- 960) \<le> (2::real) powr (3/2 * y)"
    using assms(1) by (intro powr_mono) simp_all
  also have "\<dots> = (2 powr (3/2)) powr y" by (simp add: powr_powr)
  also have "\<dots> \<le> literal_2_71828 powr y"
    using assms(2) literal_gt_1 literal_bounds(2) by (intro powr_mono2') simp_all
  finally show ?thesis by (simp only: powr_real_of_int' [of 2, simplified])
qed

lemma UpdateBeta_value_positive:
  assumes "0 \<le> m_delta s" "m_delta s \<le> 16000000000000"
    "0 < m_minRtt s" "m_minRtt s \<le> m_maxRtt s" "m_maxRtt s \<le> Time_Max"
  shows "\<exists>b. UpdateBeta_value literal_2_71828 s = Finite b \<and> 0 < b \<and> b \<le> 1"
proof -
  define g where "g = round53 (real_of_int (m_delta s) / 1000000000)"
  have "real_of_int (m_delta s) \<le> real_of_int 16000000000000"
    using assms(2) by (simp only: of_int_le_iff)
  then have "real_of_int (m_delta s) / 1000000000 \<le> 16000" by simp
  then have "g \<le> round53 16000" unfolding g_def by (rule round53_mono)
  then have g1: "g \<le> 16000" by (simp add: round53_num)
  have g0: "0 \<le> g" unfolding g_def using assms(1) by (intro round53_nonneg) simp
  have ra: "round53 (- 640) = - 640" using round53_of_int [of "- 640"] by simp
  have ha: "- huge < - 640" using pow2_less_huge [of 10] by simp
  have "rnd (- g / 25) = Finite (round53 (- g / 25)) \<and> - 640 \<le> round53 (- g / 25) \<and>
        round53 (- g / 25) \<le> 0"
    using g0 g1 by (intro rnd_between ra ha) simp_all
  then obtain y where y: "d_quot (d_neg (GetSeconds (m_delta s))) (Finite 25) = Finite y"
      "- 640 \<le> y" "y \<le> 0"
    by (simp add: GetSeconds_def g_def)
  have lo: "2 powi (- 960) \<le> literal_2_71828 powr y" using y(2,3) by (rule decay_lower)
  have "literal_2_71828 powr y \<le> literal_2_71828 powr 0"
    using y(3) literal_gt_1 by (intro powr_mono) simp_all
  then have hi: "literal_2_71828 powr y \<le> 1" using literal_gt_1 by simp
  have rb: "round53 (2 powi (- 960)) = 2 powi (- 960)" by (rule round53_pow2) simp
  have hb: "- huge < 2 powi (- 960)" using huge_pos pow2_pos [of "- 960"] by linarith
  have "rnd (literal_2_71828 powr y) = Finite (round53 (literal_2_71828 powr y)) \<and>
      2 powi (- 960) \<le> round53 (literal_2_71828 powr y) \<and>
      round53 (literal_2_71828 powr y) \<le> 1"
    by (rule rnd_between [OF rb round53_numeral(2) lo hi hb one_less_huge])
  then obtain p where p: "d_pow literal_2_71828 (Finite y) = Finite p" "2 powi (- 960) \<le> p"
      "p \<le> 1"
    by simp
  obtain r where r: "d_quot (GetDouble (m_minRtt s)) (GetDouble (m_maxRtt s)) = Finite r"
      "0 \<le> r" "r \<le> 1" "2 powi (- 63) \<le> r"
    using rtt_ratio [OF assms(3-5)] by blast
  have p0: "0 \<le> p" using p(2) pow2_pos [of "- 960"] by linarith
  have "2 powi (- 960) * 2 powi (- 63) \<le> p * r"
    using p(2) r(4) by (intro mult_mono) simp_all
  then have l2: "2 powi (- 1023) \<le> p * r" by (simp add: power_int_add [symmetric])
  have "p * r \<le> 1 * 1" using p(3) r(2,3) p0 by (intro mult_mono) simp_all
  then have h2: "p * r \<le> 1" by simp
  have rc: "round53 (2 powi (- 1023)) = 2 powi (- 1023)" by (rule round53_pow2) simp
  have hc: "- huge < 2 powi (- 1023)" using huge_pos pow2_pos [of "- 1023"] by linarith
  have "rnd (p * r) = Finite (round53 (p * r)) \<and> 2 powi (- 1023) \<le> round53 (p * r) \<and>
      round53 (p * r) \<le> 1"
    by (rule rnd_between [OF rc round53_numeral(2) l2 h2 hc one_less_huge])
  moreover have "(0::real) < 2 powi (- 1023)" by simp
  ultimately have "rnd (p * r) = Finite (round53 (p * r)) \<and> 0 < round53 (p * r) \<and>
      round53 (p * r) \<le> 1"
    by linarith
  then show ?thesis by (simp add: UpdateBeta_value_def y(1) p(1) r(1) del: d_pow.simps)
qed

lemma UpdateBeta_positive:
  assumes inv: "epoch_inv s t" and d: "m_defaultBackoff s \<noteq> Finite 0"
    and e: "m_delta s \<le> 16000000000000"
    and u: "UpdateBeta (s\<lparr>m_lastCon := now\<rparr>) = Inr (s\<lparr>m_lastCon := now, m_beta := Finite b\<rparr>)"
  shows "0 < b"
proof (cases "m_lastThroughput s < m_throughput s \<and> 0 < m_lastThroughput s \<and>
    d_le (to_double ((m_throughput s - m_lastThroughput s) div m_lastThroughput s))
      (m_throughputRatio s)")
  case False
  then have "UpdateBeta (s\<lparr>m_lastCon := now\<rparr>)
               = Inr (s\<lparr>m_lastCon := now, m_beta := m_defaultBackoff s\<rparr>)"
    by (auto simp add: UpdateBeta_def Let_def)
  then have "m_beta (s\<lparr>m_lastCon := now, m_beta := Finite b\<rparr>)
               = m_beta (s\<lparr>m_lastCon := now, m_beta := m_defaultBackoff s\<rparr>)"
    using u by simp
  then have "m_defaultBackoff s = Finite b" by simp
  then show ?thesis using inv d by (auto simp add: epoch_inv_def)
next
  case True
  then have "m_throughput s \<noteq> 0" by (auto simp: word_greater_zero_iff)
  then have le: "m_minRtt s \<le> m_maxRtt s" using inv by (simp add: epoch_inv_def)
  have i: "0 \<le> m_delta s" "0 < m_minRtt s" "m_maxRtt s \<le> Time_Max"
    using inv by (simp_all add: epoch_inv_def)
  have mx: "m_maxRtt s \<noteq> 0" using le i(2) by simp
  obtain b' where b': "UpdateBeta_value literal_2_71828 s = Finite b'" "0 < b'"
    using UpdateBeta_value_positive [OF i(1) e i(2) le i(3)] by blast
  have "UpdateBeta (s\<lparr>m_lastCon := now\<rparr>) = Inr (s\<lparr>m_lastCon := now, m_beta := Finite b'\<rparr>)"
    using True mx b'(1) [unfolded UpdateBeta_value_def]
    by (simp add: UpdateBeta_def Let_def double_div_def GetDouble_eq_0 del: d_pow.simps)
  then have "m_beta (s\<lparr>m_lastCon := now, m_beta := Finite b\<rparr>)
               = m_beta (s\<lparr>m_lastCon := now, m_beta := Finite b'\<rparr>)"
    using u by simp
  then show ?thesis using b'(2) by simp
qed

lemma PktsAcked_beta: "PktsAcked s now tcb segmentsAcked rtt = Inr s' \<Longrightarrow> m_beta s' = m_beta s"
  using PktsAcked_Inr_rest [of s now tcb segmentsAcked rtt s']
  by (auto simp add: PktsAcked_rest_fields PktsAcked_dataSent_fields)

text \<open>
  C3, as amended. In every reachable state \<open>beta\<close> is a finite value from 0 to 1; it is
  0 in the freshly constructed state. Acknowledgements and \<open>CongestionAvoidance\<close> leave
  it as it is. From a reachable state with a default backoff that is not zero and a
  stored \<open>delta\<close> of at most 16000 s, \<open>GetSsThresh\<close> returns with \<open>beta\<close> above 0 and at
  most 1.
\<close>

theorem beta_range:
  assumes "reachable s t"
  shows "(\<exists>b. m_beta s = Finite b \<and> 0 \<le> b \<and> b \<le> 1) \<and>
         (\<forall>s'. PktsAcked s now tcb segmentsAcked rtt = Inr s' \<longrightarrow> m_beta s' = m_beta s) \<and>
         (\<forall>s' tcb'. CongestionAvoidance s tcb segmentsAcked = Inr (s', tcb') \<longrightarrow>
            m_beta s' = m_beta s) \<and>
         (m_defaultBackoff s \<noteq> Finite 0 \<and> m_delta s \<le> 16000000000000 \<longrightarrow>
            (\<exists>ssThresh s' b'. GetSsThresh s now tcb bytesInFlight = Inr (ssThresh, s') \<and>
               m_beta s' = Finite b' \<and> 0 < b' \<and> b' \<le> 1))"
proof (intro conjI allI impI)
  have inv: "epoch_inv s t" using assms by (rule reachable_epoch_inv)
  show "\<exists>b. m_beta s = Finite b \<and> 0 \<le> b \<and> b \<le> 1" using inv by (simp add: epoch_inv_def)
  show "m_beta s' = m_beta s" if "PktsAcked s now tcb segmentsAcked rtt = Inr s'" for s'
    using that by (rule PktsAcked_beta)
  show "m_beta s' = m_beta s" if "CongestionAvoidance s tcb segmentsAcked = Inr (s', tcb')"
    for s' tcb'
    using CongestionAvoidance_state [OF that] by simp
  show "\<exists>ssThresh s' b'. GetSsThresh s now tcb bytesInFlight = Inr (ssThresh, s') \<and>
               m_beta s' = Finite b' \<and> 0 < b' \<and> b' \<le> 1"
    if h: "m_defaultBackoff s \<noteq> Finite 0 \<and> m_delta s \<le> 16000000000000"
  proof -
    obtain b and p :: real where r: "GetSsThresh s now tcb bytesInFlight
             = Inr (max (2 * m_segmentSize tcb) (word_of_int \<lfloor>p\<rfloor>),
                    (UpdateAlpha now (s\<lparr>m_lastCon := now, m_beta := Finite b\<rparr>))
                      \<lparr>m_minRtt := Time_Max, m_maxRtt := Time_Min,
                       m_lastThroughput := m_throughput s, m_throughput := 0,
                       m_dataSent := 0\<rparr>)"
      "UpdateBeta (s\<lparr>m_lastCon := now\<rparr>) = Inr (s\<lparr>m_lastCon := now, m_beta := Finite b\<rparr>)"
      "0 \<le> b" "b \<le> 1"
      using GetSsThresh_defined [OF inv, of now tcb bytesInFlight] by blast
    have "0 < b" using UpdateBeta_positive [OF inv _ _ r(2)] h by simp
    moreover have "m_beta ((UpdateAlpha now (s\<lparr>m_lastCon := now, m_beta := Finite b\<rparr>))
                      \<lparr>m_minRtt := Time_Max, m_maxRtt := Time_Min,
                       m_lastThroughput := m_throughput s, m_throughput := 0,
                       m_dataSent := 0\<rparr>) = Finite b"
      by (simp add: UpdateAlpha_fields)
    ultimately show ?thesis using r(1,4) by blast
  qed
qed


text \<open>
  A run of the example controller: after the first acknowledgement a congestion event at
  1 s, an acknowledgement at 2 s that records an RTT of 100 ms, and an acknowledgement of
  24000 segments at 20001 s, which gives a throughput of 1200 bytes per second.
\<close>

lemma example_event:
  "GetSsThresh (example_controller\<lparr>m_dataSent := 1000, m_throughput := 1000,
              m_delta := 1000000000, m_alpha := Finite 2, m_minRtt := 100000000,
              m_maxRtt := 100000000\<rparr>) 1000000000 example_tcb 30000
     = Inr (15000, example_controller\<lparr>m_alpha := Finite 1, m_beta := Finite (1/2),
              m_lastCon := 1000000000, m_lastThroughput := 1000\<rparr>)"
  by (simp add: GetSsThresh_def UpdateBeta_def UpdateAlpha_def Let_def
      example_controller_fields example_tcb_fields to_double_def d_sub_def rnd_half
      rnd_numeral to_uint32_numeral record_eq)

lemma example_event_reachable:
  "reachable (example_controller\<lparr>m_alpha := Finite 1, m_beta := Finite (1/2),
              m_lastCon := 1000000000, m_lastThroughput := 1000\<rparr>) 1000000000"
  by (rule reachable.congestion [OF example_ack_reachable _ _ example_event])
    (simp_all add: Time_Max_def)

lemma example_second_ack:
  "PktsAcked (example_controller\<lparr>m_alpha := Finite 1, m_beta := Finite (1/2),
              m_lastCon := 1000000000, m_lastThroughput := 1000\<rparr>) 2000000000
       (example_tcb\<lparr>m_congState := CA_RECOVERY\<rparr>) 1 100000000
     = Inr (example_controller\<lparr>m_alpha := Finite 1, m_beta := Finite (1/2),
              m_lastCon := 1000000000, m_lastThroughput := 1000, m_delta := 1000000000,
              m_minRtt := 100000000, m_maxRtt := 100000000\<rparr>)"
  by (simp add: PktsAcked_def PktsAcked_dataSent_def PktsAcked_rest_def UpdateAlpha_def Let_def
      example_controller_fields example_tcb_fields double_div_def to_double_def GetSeconds_def
      d_sub_def rnd_half rnd_numeral round53_num Time_Max_def Time_Min_def record_eq)

lemma example_second_ack_reachable:
  "reachable (example_controller\<lparr>m_alpha := Finite 1, m_beta := Finite (1/2),
              m_lastCon := 1000000000, m_lastThroughput := 1000, m_delta := 1000000000,
              m_minRtt := 100000000, m_maxRtt := 100000000\<rparr>) 2000000000"
  by (rule reachable.acked [OF example_event_reachable _ _ _ _ example_second_ack])
    (simp_all add: Time_Max_def)

lemma example_late_ack:
  "PktsAcked (example_controller\<lparr>m_alpha := Finite 1, m_beta := Finite (1/2),
              m_lastCon := 1000000000, m_lastThroughput := 1000, m_delta := 1000000000,
              m_minRtt := 100000000, m_maxRtt := 100000000\<rparr>) 20001000000000
       example_tcb 24000 100000000
     = Inr (example_controller\<lparr>m_alpha := PlusInf, m_beta := Finite (1/2),
              m_lastCon := 1000000000, m_lastThroughput := 1000, m_delta := 20000000000000,
              m_minRtt := 100000000, m_maxRtt := 100000000, m_dataSent := 24000000,
              m_throughput := 1200\<rparr>)"
proof -
  define v3 where "v3 = example_controller\<lparr>m_alpha := Finite 1, m_beta := Finite (1/2),
              m_lastCon := 1000000000, m_lastThroughput := 1000, m_delta := 1000000000,
              m_minRtt := 100000000, m_maxRtt := 100000000\<rparr>"
  note f = example_controller_fields example_tcb_fields
  have e: "GetSeconds 20001000000000 = Finite 20001" "GetSeconds 1000000000 = Finite 1"
    by (simp_all add: GetSeconds_def round53_num)
  have half: "d_sub (Finite 1) (Finite (1/2)) = Finite (1/2)"
    by (simp add: d_sub_def rnd_half)
  have thr: "PktsAcked v3 20001000000000 example_tcb 24000 100000000
     = Inr (PktsAcked_rest (v3\<lparr>m_dataSent := 24000000\<rparr>) 20001000000000 100000000 1200)"
    by (simp add: PktsAcked_def PktsAcked_dataSent_def Let_def v3_def f double_div_def
        to_double_def e d_sub_def rnd_numeral to_uint32_numeral)
  have alpha: "m_alpha (UpdateAlpha 20001000000000
                 (v3\<lparr>m_dataSent := 24000000, m_throughput := 1200\<rparr>)) = PlusInf"
    by (simp add: v3_def UpdateAlpha_def Let_def f power_overflows polynomial_19999 half
        inf_of_def)
  have "PktsAcked_rest (v3\<lparr>m_dataSent := 24000000\<rparr>) 20001000000000 100000000 1200
      = example_controller\<lparr>m_alpha := PlusInf, m_beta := Finite (1/2),
              m_lastCon := 1000000000, m_lastThroughput := 1000, m_delta := 20000000000000,
              m_minRtt := 100000000, m_maxRtt := 100000000, m_dataSent := 24000000,
              m_throughput := 1200\<rparr>"
    using alpha
    by (simp add: record_eq PktsAcked_rest_def Let_def UpdateAlpha_fields)
      (simp add: v3_def f)
  then show ?thesis using thr by (simp only: v3_def)
qed

lemma example_late_ack_reachable:
  "reachable (example_controller\<lparr>m_alpha := PlusInf, m_beta := Finite (1/2),
              m_lastCon := 1000000000, m_lastThroughput := 1000, m_delta := 20000000000000,
              m_minRtt := 100000000, m_maxRtt := 100000000, m_dataSent := 24000000,
              m_throughput := 1200\<rparr>) 20001000000000"
  by (rule reachable.acked [OF example_second_ack_reachable _ _ _ _ example_late_ack])
    (simp_all add: Time_Max_def)

lemma example_late_event:
  "GetSsThresh (example_controller\<lparr>m_alpha := PlusInf, m_beta := Finite (1/2),
              m_lastCon := 1000000000, m_lastThroughput := 1000, m_delta := 20000000000000,
              m_minRtt := 100000000, m_maxRtt := 100000000, m_dataSent := 24000000,
              m_throughput := 1200\<rparr>) 20001000000000 example_tcb 30000
     = Inr (2000, example_controller\<lparr>m_alpha := Finite 2, m_beta := Finite 0,
              m_lastCon := 20001000000000, m_lastThroughput := 1200\<rparr>)"
proof -
  note f = example_controller_fields example_tcb_fields
  have e: "GetSeconds 20000000000000 = Finite 20000"
    by (simp add: GetSeconds_def round53_num)
  have q: "d_quot (d_neg (Finite 20000)) (Finite 25) = Finite (- 800)"
    by (simp add: rnd_neg_numeral)
  have p: "d_pow literal_2_71828 (Finite (- 800)) = Finite 0"
    by (rule d_pow_underflow) simp
  have gd: "GetDouble 100000000 = Finite 100000000" by (simp add: GetDouble_def round53_num)
  have one: "d_sub (Finite 1) (Finite 0) = Finite 1" by (simp add: d_sub_def)
  show ?thesis
    by (simp add: GetSsThresh_def UpdateBeta_def UpdateAlpha_def Let_def f to_double_def
        double_div_def e q p gd one rnd_numeral rnd_neg_numeral record_eq del: d_pow.simps)
qed

text \<open>
  After the first acknowledgement of the example the default backoff is 1/2 and the
  stored \<open>delta\<close> is one second: an acknowledgement leaves \<open>beta = 0\<close>, and the congestion
  event sets \<open>beta = 1/2\<close>.
\<close>

theorem beta_range_witness:
  "reachable (example_controller\<lparr>m_dataSent := 1000, m_throughput := 1000,
              m_delta := 1000000000, m_alpha := Finite 2, m_minRtt := 100000000,
              m_maxRtt := 100000000\<rparr>) 1000000000 \<and>
   m_beta (example_controller\<lparr>m_dataSent := 1000, m_throughput := 1000,
              m_delta := 1000000000, m_alpha := Finite 2, m_minRtt := 100000000,
              m_maxRtt := 100000000\<rparr>) = Finite 0 \<and>
   m_defaultBackoff (example_controller\<lparr>m_dataSent := 1000, m_throughput := 1000,
              m_delta := 1000000000, m_alpha := Finite 2, m_minRtt := 100000000,
              m_maxRtt := 100000000\<rparr>) \<noteq> Finite 0 \<and>
   m_delta (example_controller\<lparr>m_dataSent := 1000, m_throughput := 1000,
              m_delta := 1000000000, m_alpha := Finite 2, m_minRtt := 100000000,
              m_maxRtt := 100000000\<rparr>) \<le> 16000000000000 \<and>
   GetSsThresh (example_controller\<lparr>m_dataSent := 1000, m_throughput := 1000,
              m_delta := 1000000000, m_alpha := Finite 2, m_minRtt := 100000000,
              m_maxRtt := 100000000\<rparr>) 1000000000 example_tcb 30000
     = Inr (15000, example_controller\<lparr>m_alpha := Finite 1, m_beta := Finite (1/2),
              m_lastCon := 1000000000, m_lastThroughput := 1000\<rparr>) \<and>
   (\<exists>b'. m_beta (example_controller\<lparr>m_alpha := Finite 1, m_beta := Finite (1/2),
              m_lastCon := 1000000000, m_lastThroughput := 1000\<rparr>) = Finite b' \<and>
         0 < b' \<and> b' \<le> 1)"
proof -
  define s where "s = example_controller\<lparr>m_dataSent := 1000, m_throughput := 1000,
              m_delta := 1000000000, m_alpha := Finite 2, m_minRtt := 100000000,
              m_maxRtt := 100000000\<rparr>"
  define s' where "s' = example_controller\<lparr>m_alpha := Finite 1, m_beta := Finite (1/2),
              m_lastCon := 1000000000, m_lastThroughput := 1000\<rparr>"
  have r: "reachable s 1000000000" unfolding s_def by (rule example_ack_reachable)
  have h: "m_beta s = Finite 0" "m_defaultBackoff s \<noteq> Finite 0"
      "m_delta s \<le> 16000000000000"
    by (simp_all add: s_def example_controller_fields)
  have run: "GetSsThresh s 1000000000 example_tcb 30000 = Inr (15000, s')"
    unfolding s_def s'_def by (rule example_event)
  note t = beta_range [OF r, where now = 1000000000 and tcb = example_tcb
      and bytesInFlight = 30000]
  from t h(2,3) obtain ssThresh s1 b' where
      g: "GetSsThresh s 1000000000 example_tcb 30000 = Inr (ssThresh, s1)"
      "m_beta s1 = Finite b'" "0 < b'" "b' \<le> 1"
    by blast
  have "s1 = s'" using g(1) run by simp
  then have "\<exists>b'. m_beta s' = Finite b' \<and> 0 < b' \<and> b' \<le> 1" using g(2-4) by blast
  then show ?thesis using r h run unfolding s_def s'_def by blast
qed

text \<open>
  The claim as stated fails in the freshly constructed state, where \<open>beta\<close> is 0, and
  after a long epoch. In the run above the acknowledgement at 20001 s stores a \<open>delta\<close>
  of 20000 s; at the congestion event that follows, the throughput has risen from 1000 to
  1200, within the threshold, and \<open>beta\<close> is replaced: \<open>pow (2.71828, - 800)\<close> underflows
  to zero and \<open>beta\<close> is 0, with a default backoff of 1/2.
\<close>

theorem beta_range_counterexample:
  "reachable example_controller 0 \<and> m_beta example_controller = Finite 0 \<and>
   reachable (example_controller\<lparr>m_alpha := PlusInf, m_beta := Finite (1/2),
              m_lastCon := 1000000000, m_lastThroughput := 1000, m_delta := 20000000000000,
              m_minRtt := 100000000, m_maxRtt := 100000000, m_dataSent := 24000000,
              m_throughput := 1200\<rparr>) 20001000000000 \<and>
   GetSsThresh (example_controller\<lparr>m_alpha := PlusInf, m_beta := Finite (1/2),
              m_lastCon := 1000000000, m_lastThroughput := 1000, m_delta := 20000000000000,
              m_minRtt := 100000000, m_maxRtt := 100000000, m_dataSent := 24000000,
              m_throughput := 1200\<rparr>) 20001000000000 example_tcb 30000
     = Inr (2000, example_controller\<lparr>m_alpha := Finite 2, m_beta := Finite 0,
              m_lastCon := 20001000000000, m_lastThroughput := 1200\<rparr>) \<and>
   reachable (example_controller\<lparr>m_alpha := Finite 2, m_beta := Finite 0,
              m_lastCon := 20001000000000, m_lastThroughput := 1200\<rparr>) 20001000000000 \<and>
   m_defaultBackoff (example_controller\<lparr>m_alpha := Finite 2, m_beta := Finite 0,
              m_lastCon := 20001000000000, m_lastThroughput := 1200\<rparr>) = Finite (1/2) \<and>
   m_beta (example_controller\<lparr>m_alpha := Finite 2, m_beta := Finite 0,
              m_lastCon := 20001000000000, m_lastThroughput := 1200\<rparr>) = Finite 0"
proof -
  have "reachable (example_controller\<lparr>m_alpha := Finite 2, m_beta := Finite 0,
              m_lastCon := 20001000000000, m_lastThroughput := 1200\<rparr>) 20001000000000"
    by (rule reachable.congestion [OF example_late_ack_reachable _ _ example_late_event])
      (simp_all add: Time_Max_def)
  then show ?thesis
    using example_controller_reachable example_late_ack_reachable example_late_event
    by (simp add: example_controller_fields)
qed


section \<open>Further properties\<close>

text \<open>
  X1. After the run above \<open>alpha\<close> is infinite in a reachable state, and a call of
  \<open>CongestionAvoidance\<close> then converts an infinite increment to \<open>uint32_t\<close>, which is
  undefined.
\<close>

theorem CongestionAvoidance_infinite_alpha:
  "reachable (example_controller\<lparr>m_alpha := PlusInf, m_beta := Finite (1/2),
              m_lastCon := 1000000000, m_lastThroughput := 1000, m_delta := 20000000000000,
              m_minRtt := 100000000, m_maxRtt := 100000000, m_dataSent := 24000000,
              m_throughput := 1200\<rparr>) 20001000000000 \<and>
   CongestionAvoidance (example_controller\<lparr>m_alpha := PlusInf, m_beta := Finite (1/2),
              m_lastCon := 1000000000, m_lastThroughput := 1000, m_delta := 20000000000000,
              m_minRtt := 100000000, m_maxRtt := 100000000, m_dataSent := 24000000,
              m_throughput := 1200\<rparr>) example_tcb 1 = Inl ConversionOutOfRange"
proof
  show "reachable (example_controller\<lparr>m_alpha := PlusInf, m_beta := Finite (1/2),
              m_lastCon := 1000000000, m_lastThroughput := 1000, m_delta := 20000000000000,
              m_minRtt := 100000000, m_maxRtt := 100000000, m_dataSent := 24000000,
              m_throughput := 1200\<rparr>) 20001000000000"
    by (rule example_late_ack_reachable)
  show "CongestionAvoidance (example_controller\<lparr>m_alpha := PlusInf, m_beta := Finite (1/2),
              m_lastCon := 1000000000, m_lastThroughput := 1000, m_delta := 20000000000000,
              m_minRtt := 100000000, m_maxRtt := 100000000, m_dataSent := 24000000,
              m_throughput := 1200\<rparr>) example_tcb 1 = Inl ConversionOutOfRange"
    by (simp add: CongestionAvoidance_def example_tcb_fields double_div_def to_double_def
        inf_of_def d_max_def)
qed

text \<open>
  X2. In every reachable state the last congestion event is neither negative nor after
  the clock, \<open>delta\<close> is not negative, \<open>minRtt\<close> is positive, and \<open>minRtt \<le> maxRtt\<close>
  whenever a throughput has been measured in the epoch.
\<close>

theorem reachable_invariants:
  assumes "reachable s t"
  shows "0 \<le> m_lastCon s \<and> m_lastCon s \<le> t \<and> 0 \<le> m_delta s \<and> 0 < m_minRtt s \<and>
         (m_throughput s = 0 \<or> m_minRtt s \<le> m_maxRtt s)"
  using reachable_epoch_inv [OF assms] by (simp add: epoch_inv_def)

theorem reachable_invariants_witness:
  "reachable (example_controller\<lparr>m_dataSent := 1000, m_throughput := 1000,
              m_delta := 1000000000, m_alpha := Finite 2, m_minRtt := 100000000,
              m_maxRtt := 100000000\<rparr>) 1000000000 \<and>
   m_throughput (example_controller\<lparr>m_dataSent := 1000, m_throughput := 1000,
              m_delta := 1000000000, m_alpha := Finite 2, m_minRtt := 100000000,
              m_maxRtt := 100000000\<rparr>) \<noteq> 0 \<and>
   m_minRtt (example_controller\<lparr>m_dataSent := 1000, m_throughput := 1000,
              m_delta := 1000000000, m_alpha := Finite 2, m_minRtt := 100000000,
              m_maxRtt := 100000000\<rparr>)
     \<le> m_maxRtt (example_controller\<lparr>m_dataSent := 1000, m_throughput := 1000,
              m_delta := 1000000000, m_alpha := Finite 2, m_minRtt := 100000000,
              m_maxRtt := 100000000\<rparr>)"
proof -
  define s where "s = example_controller\<lparr>m_dataSent := 1000, m_throughput := 1000,
              m_delta := 1000000000, m_alpha := Finite 2, m_minRtt := 100000000,
              m_maxRtt := 100000000\<rparr>"
  have r: "reachable s 1000000000" unfolding s_def by (rule example_ack_reachable)
  have z: "m_throughput s \<noteq> 0" by (simp add: s_def)
  from reachable_invariants [OF r] z have "m_minRtt s \<le> m_maxRtt s" by blast
  then show ?thesis using r z unfolding s_def by blast
qed


end
